theory Spec2Isabelle
  imports Complex_Main
begin

section \<open>Numbers, errors, results\<close>

text \<open>
  Python floats are modelled as real numbers, so \<^verbatim>\<open>0.6\<close> is the real \<open>6/10\<close>, and their
  arithmetic as the arithmetic of the reals, with one exception: the products with which
  the strategies place a stop loss next to an entry price, where rounding decides
  whether the two differ (section ``Products of doubles''). A timestamp
  (\<^verbatim>\<open>datetime.now()\<close>) is an abstract clock reading handed to every operation that reads
  the clock.
\<close>

type_synonym timestamp = nat

datatype error = IndexError | KeyError | ValueError | ZeroDivisionError

text \<open>
  A call either returns a value or raises. The state after the call is kept next
  to the outcome, because a Python method that raises keeps the mutations it made
  before the raise.
\<close>

datatype 'a outcome = Returned 'a | Raised error

text \<open>
  Python's \<^verbatim>\<open>/\<close> on numbers raises on a zero divisor. A computation that can raise
  and touches no state has its error on the left of a sum; \<open>bind_err\<close> runs the next
  statement on the value of the previous one and passes an error on.
\<close>

definition py_div :: "real \<Rightarrow> real \<Rightarrow> error + real" where
  "py_div numerator divisor =
     (if divisor \<noteq> 0 then Inr (numerator / divisor) else Inl ZeroDivisionError)"

definition bind_err :: "error + 'a \<Rightarrow> ('a \<Rightarrow> error + 'b) \<Rightarrow> error + 'b" where
  "bind_err m f = (case m of Inl e \<Rightarrow> Inl e | Inr v \<Rightarrow> f v)"

section \<open>Floats inside pandas\<close>

text \<open>
  pandas does not raise on a division by zero or on a window that is not full: it
  yields an infinity or NaN, and every comparison with NaN is false. The elements of a
  Series are therefore reals extended by the two infinities and NaN; the sign of a
  zero is not modelled (a zero divisor counts as positive).
\<close>

datatype npfloat = Fin real | PosInf | NegInf | NaN

fun fneg :: "npfloat \<Rightarrow> npfloat" where
  "fneg (Fin x) = Fin (- x)"
| "fneg PosInf = NegInf"
| "fneg NegInf = PosInf"
| "fneg NaN = NaN"

fun fadd :: "npfloat \<Rightarrow> npfloat \<Rightarrow> npfloat" where
  "fadd NaN b = NaN"
| "fadd a NaN = NaN"
| "fadd (Fin x) (Fin y) = Fin (x + y)"
| "fadd PosInf NegInf = NaN"
| "fadd NegInf PosInf = NaN"
| "fadd PosInf b = PosInf"
| "fadd NegInf b = NegInf"
| "fadd (Fin x) b = b"

definition fsub :: "npfloat \<Rightarrow> npfloat \<Rightarrow> npfloat" where
  "fsub a b = fadd a (fneg b)"

fun fmul :: "npfloat \<Rightarrow> npfloat \<Rightarrow> npfloat" where
  "fmul NaN b = NaN"
| "fmul a NaN = NaN"
| "fmul (Fin x) (Fin y) = Fin (x * y)"
| "fmul (Fin x) PosInf = (if x = 0 then NaN else if 0 < x then PosInf else NegInf)"
| "fmul (Fin x) NegInf = (if x = 0 then NaN else if 0 < x then NegInf else PosInf)"
| "fmul PosInf (Fin y) = (if y = 0 then NaN else if 0 < y then PosInf else NegInf)"
| "fmul NegInf (Fin y) = (if y = 0 then NaN else if 0 < y then NegInf else PosInf)"
| "fmul PosInf PosInf = PosInf"
| "fmul NegInf NegInf = PosInf"
| "fmul PosInf NegInf = NegInf"
| "fmul NegInf PosInf = NegInf"

fun fdiv :: "npfloat \<Rightarrow> npfloat \<Rightarrow> npfloat" where
  "fdiv NaN b = NaN"
| "fdiv a NaN = NaN"
| "fdiv (Fin x) (Fin y) =
     (if y \<noteq> 0 then Fin (x / y)
      else if 0 < x then PosInf else if x < 0 then NegInf else NaN)"
| "fdiv (Fin x) b = Fin 0"
| "fdiv PosInf (Fin y) = (if 0 \<le> y then PosInf else NegInf)"
| "fdiv NegInf (Fin y) = (if 0 \<le> y then NegInf else PosInf)"
| "fdiv a b = NaN"

fun flt :: "npfloat \<Rightarrow> npfloat \<Rightarrow> bool" where
  "flt NaN b = False"
| "flt a NaN = False"
| "flt (Fin x) (Fin y) = (x < y)"
| "flt a PosInf = (a \<noteq> PosInf)"
| "flt NegInf b = (b \<noteq> NegInf)"
| "flt a b = False"

definition fle :: "npfloat \<Rightarrow> npfloat \<Rightarrow> bool" where
  "fle a b = (a \<noteq> NaN \<and> b \<noteq> NaN \<and> (flt a b \<or> a = b))"

definition fgt :: "npfloat \<Rightarrow> npfloat \<Rightarrow> bool" where
  "fgt a b = flt b a"

definition fge :: "npfloat \<Rightarrow> npfloat \<Rightarrow> bool" where
  "fge a b = fle b a"

section \<open>Signals\<close>

text \<open>
  A signal is a Python dict. Its keys are modelled as optional fields (\<open>None\<close>: the
  key is absent); a key that is present holds a value of its intended type. The key
  \<^verbatim>\<open>take_profit\<close> is only ever read with \<^verbatim>\<open>signal.get('take_profit')\<close>, so for it \<open>None\<close>
  stands both for an absent key and for the value \<^verbatim>\<open>None\<close>.
  A reason is a literal text or an f-string that renders one number with a fixed
  number of decimals between two literal texts.
\<close>

datatype reason = Plain string | Formatted string npfloat nat string

record signal =
  sg_signal :: "string option"
  sg_confidence :: "real option"
  sg_reason :: "reason option"
  sg_entry_price :: "real option"
  sg_stop_loss :: "real option"
  sg_take_profit :: "real option"
  sg_strategy :: "string option"
  sg_symbol :: "string option"
  sg_timestamp :: "timestamp option"

text \<open>\<^verbatim>\<open>field in signal\<close> for a key given as a string.\<close>

definition has_key :: "signal \<Rightarrow> string \<Rightarrow> bool" where
  "has_key s k =
     (if k = ''signal'' then sg_signal s \<noteq> None
      else if k = ''confidence'' then sg_confidence s \<noteq> None
      else if k = ''reason'' then sg_reason s \<noteq> None
      else if k = ''entry_price'' then sg_entry_price s \<noteq> None
      else if k = ''stop_loss'' then sg_stop_loss s \<noteq> None
      else if k = ''strategy'' then sg_strategy s \<noteq> None
      else if k = ''symbol'' then sg_symbol s \<noteq> None
      else if k = ''timestamp'' then sg_timestamp s \<noteq> None
      else False)"

section \<open>RiskManager and SimpleRiskManager\<close>

text \<open>
  The two classes have the same fields and the same two methods, line for line.
\<close>

record risk_manager =
  max_risk_per_trade :: real
  max_daily_loss :: real
  daily_pnl :: real
  account_balance :: real

definition RiskManager :: "real \<Rightarrow> real \<Rightarrow> risk_manager" where
  "RiskManager risk loss =
     \<lparr>max_risk_per_trade = risk, max_daily_loss = loss, daily_pnl = 0, account_balance = 10000\<rparr>"

definition default_risk_manager :: risk_manager where
  "default_risk_manager = RiskManager (2 / 100) (5 / 100)"

text \<open>
  \<^verbatim>\<open>calculate_position_size\<close> divides by the distance between the two prices, so its
  result is a number or the error of that division.
\<close>

definition calculate_position_size :: "risk_manager \<Rightarrow> real \<Rightarrow> real \<Rightarrow> error + real" where
  "calculate_position_size rm entry stop =
     (let risk_amount = account_balance rm * max_risk_per_trade rm;
          price_diff = \<bar>entry - stop\<bar>
      in if price_diff = 0 then Inr 0
         else bind_err (py_div risk_amount price_diff) (\<lambda>position_size.
              Inr (min position_size (account_balance rm * (1 / 10)))))"

definition required_fields :: "string list" where
  "required_fields = [''signal'', ''entry_price'', ''stop_loss'']"

text \<open>\<^verbatim>\<open>signal.get('confidence', default)\<close>.\<close>

definition get_confidence :: "signal \<Rightarrow> real \<Rightarrow> real" where
  "get_confidence s dflt = (case sg_confidence s of None \<Rightarrow> dflt | Some c \<Rightarrow> c)"

text \<open>The three log lines of \<^verbatim>\<open>validate_trade\<close>.\<close>

definition msg_daily_loss :: string where
  "msg_daily_loss = ''Daily loss limit reached. Trade rejected.''"

definition msg_missing_fields :: string where
  "msg_missing_fields = ''Signal missing required fields. Trade rejected.''"

definition msg_low_confidence :: string where
  "msg_low_confidence = ''Signal confidence too low. Trade rejected.''"

text \<open>
  \<^verbatim>\<open>validate_trade\<close> with the line it logs: the verdict and the message of the check
  that rejected the signal, if one did.
\<close>

definition validate_trade_logged :: "risk_manager \<Rightarrow> signal \<Rightarrow> bool \<times> string option" where
  "validate_trade_logged rm s =
     (if daily_pnl rm \<le> - account_balance rm * max_daily_loss rm
        then (False, Some msg_daily_loss)
      else if \<not> list_all (\<lambda>field. has_key s field) required_fields
        then (False, Some msg_missing_fields)
      else if get_confidence s 0 < 6 / 10
        then (False, Some msg_low_confidence)
      else (True, None))"

definition validate_trade :: "risk_manager \<Rightarrow> signal \<Rightarrow> bool" where
  "validate_trade rm s = fst (validate_trade_logged rm s)"

section \<open>Trades and the robot\<close>

text \<open>
  A trade is a Python dict that \<^verbatim>\<open>execute_trade\<close> builds and \<^verbatim>\<open>close_trade\<close> later
  mutates in place; the four keys that closing adds are optional fields. The lists
  \<^verbatim>\<open>active_trades\<close> and \<^verbatim>\<open>trade_history\<close> hold references to these dicts, so the robot
  carries an object store: a reference is a number, \<open>heap\<close> gives the dict behind it
  and \<open>next_ref\<close> is the first reference not yet handed out.
\<close>

record trade =
  trade_id :: nat
  symbol :: string
  strategy :: string
  signal_type :: string
  entry_price :: real
  stop_loss :: real
  take_profit :: "real option"
  position_size :: real
  entry_time :: timestamp
  status :: string
  exit_price :: "real option"
  exit_time :: "timestamp option"
  pnl :: "real option"
  close_reason :: "string option"

type_synonym ref = nat

datatype engine = ForexTradingRobot | SimpleForexTradingRobot

record robot =
  robot_class :: engine
  risk_manager :: risk_manager
  heap :: "ref \<Rightarrow> trade"
  next_ref :: ref
  active_trades :: "ref list"
  trade_history :: "ref list"

text \<open>
  \<^verbatim>\<open>ForexTradingRobot\<close> (trading\_engine.py) and \<^verbatim>\<open>SimpleForexTradingRobot\<close>
  (trading\_engine\_simple.py) share \<^verbatim>\<open>execute_trade\<close>, \<^verbatim>\<open>monitor_trades\<close> and
  \<^verbatim>\<open>close_trade\<close> except for the expression that numbers a new trade; \<open>robot_class\<close>
  says which of the two classes the object belongs to.
\<close>

definition blank_trade :: trade where
  "blank_trade =
     \<lparr>trade_id = 0, symbol = [], strategy = [], signal_type = [], entry_price = 0,
      stop_loss = 0, take_profit = None, position_size = 0, entry_time = 0, status = [],
      exit_price = None, exit_time = None, pnl = None, close_reason = None\<rparr>"

definition new_robot :: "engine \<Rightarrow> robot" where
  "new_robot eng =
     \<lparr>robot_class = eng, risk_manager = default_risk_manager, heap = (\<lambda>_. blank_trade), next_ref = 0,
      active_trades = [], trade_history = []\<rparr>"

definition next_trade_id :: "robot \<Rightarrow> nat" where
  "next_trade_id r =
     (case robot_class r of
        ForexTradingRobot \<Rightarrow> length (trade_history r) + 1
      | SimpleForexTradingRobot \<Rightarrow> length (trade_history r) + length (active_trades r) + 1)"

definition execute_trade :: "timestamp \<Rightarrow> signal \<Rightarrow> robot \<Rightarrow> bool outcome \<times> robot" where
  "execute_trade now sg r =
     (if \<not> validate_trade (risk_manager r) sg then (Returned False, r)
      else case sg_entry_price sg of
        None \<Rightarrow> (Raised KeyError, r)
      | Some entry \<Rightarrow>
      (case sg_stop_loss sg of
        None \<Rightarrow> (Raised KeyError, r)
      | Some stop \<Rightarrow>
      (case calculate_position_size (risk_manager r) entry stop of
        Inl err \<Rightarrow> (Raised err, r)
      | Inr psize \<Rightarrow>
          if psize \<le> 0 then (Returned False, r)
          else case sg_symbol sg of
            None \<Rightarrow> (Raised KeyError, r)
          | Some symb \<Rightarrow>
          (case sg_strategy sg of
            None \<Rightarrow> (Raised KeyError, r)
          | Some strat \<Rightarrow>
          (case sg_signal sg of
            None \<Rightarrow> (Raised KeyError, r)
          | Some direction \<Rightarrow>
          (let new_trade =
                 \<lparr>trade_id = next_trade_id r, symbol = symb, strategy = strat,
                  signal_type = direction, entry_price = entry, stop_loss = stop,
                  take_profit = sg_take_profit sg, position_size = psize,
                  entry_time = now, status = ''OPEN'', exit_price = None,
                  exit_time = None, pnl = None, close_reason = None\<rparr>;
               a = next_ref r
           in (Returned True,
               r\<lparr>heap := (heap r)(a := new_trade), next_ref := Suc a,
                 active_trades := active_trades r @ [a]\<rparr>)))))))"

text \<open>
  \<^verbatim>\<open>list.remove(x)\<close> deletes the first element equal to \<open>x\<close>; dicts are compared by
  content. \<open>None\<close> is the \<^verbatim>\<open>ValueError\<close> of a list without such an element.
\<close>

fun list_remove :: "(ref \<Rightarrow> trade) \<Rightarrow> trade \<Rightarrow> ref list \<Rightarrow> ref list option" where
  "list_remove h v [] = None"
| "list_remove h v (b # bs) =
     (if h b = v then Some bs
      else case list_remove h v bs of None \<Rightarrow> None | Some bs' \<Rightarrow> Some (b # bs'))"

definition trade_pnl :: "trade \<Rightarrow> real \<Rightarrow> real" where
  "trade_pnl t price =
     (if signal_type t = ''BUY'' then (price - entry_price t) * position_size t
      else (entry_price t - price) * position_size t)"

definition closed_trade :: "trade \<Rightarrow> real \<Rightarrow> timestamp \<Rightarrow> string \<Rightarrow> trade" where
  "closed_trade t price now why =
     t\<lparr>exit_price := Some price, exit_time := Some now, pnl := Some (trade_pnl t price),
       status := ''CLOSED'', close_reason := Some why\<rparr>"

definition apply_pnl :: "real \<Rightarrow> risk_manager \<Rightarrow> risk_manager" where
  "apply_pnl x rm = rm\<lparr>daily_pnl := daily_pnl rm + x, account_balance := account_balance rm + x\<rparr>"

definition close_trade :: "timestamp \<Rightarrow> robot \<Rightarrow> ref \<Rightarrow> real \<Rightarrow> string \<Rightarrow> unit outcome \<times> robot" where
  "close_trade now r a price why =
     (let t = closed_trade (heap r a) price now why;
          r1 = r\<lparr>heap := (heap r)(a := t),
                 risk_manager := apply_pnl (trade_pnl (heap r a) price) (risk_manager r)\<rparr>
      in case list_remove (heap r1) t (active_trades r1) of
           None \<Rightarrow> (Raised ValueError, r1)
         | Some rest \<Rightarrow>
             (Returned (),
              r1\<lparr>active_trades := rest, trade_history := trade_history r1 @ [a]\<rparr>))"

text \<open>
  The branch that \<^verbatim>\<open>monitor_trades\<close> takes for one trade and the price fetched for it:
  the reason to close with, or \<open>None\<close> when the trade is left alone. The price 0 is what
  \<^verbatim>\<open>get_real_time_price\<close> returns when it has none. \<^verbatim>\<open>trade['take_profit'] and ...\<close> tests
  the take profit for truth, which a \<^verbatim>\<open>None\<close> and a zero both fail.
\<close>

definition monitor_decision :: "trade \<Rightarrow> real \<Rightarrow> string option" where
  "monitor_decision t current_price =
     (if current_price = 0 then None
      else if (signal_type t = ''BUY'' \<and> current_price \<le> stop_loss t) \<or>
              (signal_type t = ''SELL'' \<and> current_price \<ge> stop_loss t)
        then Some ''STOP_LOSS''
      else if (case take_profit t of
                 None \<Rightarrow> False
               | Some tp \<Rightarrow> tp \<noteq> 0 \<and>
                   ((signal_type t = ''BUY'' \<and> current_price \<ge> tp) \<or>
                    (signal_type t = ''SELL'' \<and> current_price \<le> tp)))
        then Some ''TAKE_PROFIT''
      else None)"

definition monitor_step :: "timestamp \<Rightarrow> real \<Rightarrow> ref \<Rightarrow> robot \<Rightarrow> unit outcome \<times> robot" where
  "monitor_step now current_price a r =
     (case monitor_decision (heap r a) current_price of
        None \<Rightarrow> (Returned (), r)
      | Some why \<Rightarrow> close_trade now r a current_price why)"

text \<open>
  The loop over the copy of \<^verbatim>\<open>active_trades\<close>. The price feed and the clock are outside
  the program: \<open>feed k s\<close> is the price that the \<open>k\<close>-th fetch of the call returns for
  the symbol, \<open>clock k\<close> the time read in the \<open>k\<close>-th round.
\<close>

fun monitor_loop ::
  "(nat \<Rightarrow> string \<Rightarrow> real) \<Rightarrow> (nat \<Rightarrow> timestamp) \<Rightarrow> nat \<Rightarrow> ref list \<Rightarrow> robot \<Rightarrow> unit outcome \<times> robot"
where
  "monitor_loop feed clock k [] r = (Returned (), r)"
| "monitor_loop feed clock k (a # rest) r =
     (case monitor_step (clock k) (feed k (symbol (heap r a))) a r of
        (Raised e, r') \<Rightarrow> (Raised e, r')
      | (Returned u, r') \<Rightarrow> monitor_loop feed clock (Suc k) rest r')"

definition monitor_trades ::
  "(nat \<Rightarrow> string \<Rightarrow> real) \<Rightarrow> (nat \<Rightarrow> timestamp) \<Rightarrow> robot \<Rightarrow> unit outcome \<times> robot"
where
  "monitor_trades feed clock r = monitor_loop feed clock 0 (active_trades r) r"

section \<open>The manual routes of trading\_simple.py\<close>

text \<open>
  The JSON body of a manual trade, keys optional, numbers already numbers. The routes
  work on the module's robot, a \<^verbatim>\<open>SimpleForexTradingRobot\<close>, and answer with an HTTP
  status; an exception of the robot is caught and answered with 500.
\<close>

record request =
  rq_symbol :: "string option"
  rq_signal :: "string option"
  rq_entry_price :: "real option"
  rq_stop_loss :: "real option"
  rq_take_profit :: "real option"
  rq_confidence :: "real option"

definition manual_signal :: "request \<Rightarrow> signal" where
  "manual_signal d =
     \<lparr>sg_signal = rq_signal d,
      sg_confidence = Some (case rq_confidence d of None \<Rightarrow> 1 | Some c \<Rightarrow> c),
      sg_reason = Some (Plain ''Manual trade execution''),
      sg_entry_price = rq_entry_price d,
      sg_stop_loss = rq_stop_loss d,
      sg_take_profit =
        (case rq_take_profit d of
           None \<Rightarrow> None
         | Some tp \<Rightarrow> if tp \<noteq> 0 then Some tp else None),
      sg_strategy = Some ''Manual'',
      sg_symbol = rq_symbol d,
      sg_timestamp = None\<rparr>"

definition manual_trade :: "timestamp \<Rightarrow> request \<Rightarrow> robot \<Rightarrow> nat \<times> robot" where
  "manual_trade now d r =
     (if rq_symbol d = None \<or> rq_signal d = None \<or> rq_entry_price d = None \<or>
         rq_stop_loss d = None
        then (400, r)
      else case execute_trade now (manual_signal d) r of
             (Returned True, r') \<Rightarrow> (200, r')
           | (Returned False, r') \<Rightarrow> (400, r')
           | (Raised e, r') \<Rightarrow> (500, r'))"

definition close_trade_manual ::
  "timestamp \<Rightarrow> (string \<Rightarrow> real) \<Rightarrow> nat \<Rightarrow> robot \<Rightarrow> nat \<times> robot"
where
  "close_trade_manual now price_of wanted r =
     (case find (\<lambda>a. trade_id (heap r a) = wanted) (active_trades r) of
        None \<Rightarrow> (404, r)
      | Some a \<Rightarrow>
          (let current_price = price_of (symbol (heap r a))
           in if current_price = 0 then (500, r)
              else case close_trade now r a current_price ''MANUAL_CLOSE'' of
                     (Returned u, r') \<Rightarrow> (200, r')
                   | (Raised e, r') \<Rightarrow> (500, r')))"

section \<open>Runs\<close>

text \<open>
  The calls that reach a robot: its own three methods and the two manual routes. A call
  that raises leaves the robot as it was at the raise, and the next call goes on from
  there.
\<close>

datatype op =
    ExecuteTrade timestamp signal
  | CloseTrade timestamp ref real string
  | MonitorTrades "nat \<Rightarrow> string \<Rightarrow> real" "nat \<Rightarrow> timestamp"
  | ManualTrade timestamp request
  | CloseTradeManual timestamp "string \<Rightarrow> real" nat

fun apply_op :: "robot \<Rightarrow> op \<Rightarrow> robot" where
  "apply_op r (ExecuteTrade now sg) = snd (execute_trade now sg r)"
| "apply_op r (CloseTrade now a price why) = snd (close_trade now r a price why)"
| "apply_op r (MonitorTrades feed clock) = snd (monitor_trades feed clock r)"
| "apply_op r (ManualTrade now d) = snd (manual_trade now d r)"
| "apply_op r (CloseTradeManual now price_of wanted) = snd (close_trade_manual now price_of wanted r)"

definition run :: "op list \<Rightarrow> robot \<Rightarrow> robot" where
  "run ops r = foldl apply_op r ops"

text \<open>The calls other than a direct \<^verbatim>\<open>close_trade\<close> with a reason of the caller's choice.\<close>

fun service_op :: "op \<Rightarrow> bool" where
  "service_op (CloseTrade now a price why) = False"
| "service_op _ = True"

section \<open>Well-formed robots\<close>

text \<open>
  What every robot built by the calls above satisfies: no reference occurs twice in the
  two lists, the trades in \<^verbatim>\<open>active_trades\<close> are open, and every listed reference has
  been handed out.
\<close>

definition robot_inv :: "robot \<Rightarrow> bool" where
  "robot_inv r \<longleftrightarrow>
     distinct (active_trades r @ trade_history r) \<and>
     list_all (\<lambda>a. status (heap r a) = ''OPEN'') (active_trades r) \<and>
     list_all (\<lambda>a. a < next_ref r) (active_trades r @ trade_history r)"


text \<open>The ids of all trades ever created, open ones first.\<close>

definition all_ids :: "robot \<Rightarrow> nat list" where
  "all_ids r = map (\<lambda>a. trade_id (heap r a)) (active_trades r @ trade_history r)"

text \<open>The realized profit or loss written into a trade, 0 while there is none.\<close>

definition realized :: "trade \<Rightarrow> real" where
  "realized t = (case pnl t of None \<Rightarrow> 0 | Some x \<Rightarrow> x)"

text \<open>A trade after \<^verbatim>\<open>monitor_trades\<close> has looked at it with a price.\<close>

definition monitored :: "trade \<Rightarrow> real \<Rightarrow> timestamp \<Rightarrow> trade" where
  "monitored t p now =
     (case monitor_decision t p of None \<Rightarrow> t | Some why \<Rightarrow> closed_trade t p now why)"

section \<open>Example robots\<close>

text \<open>
  One open BUY trade: entry 1.1000, stop 1.0950, size 100, on a fresh simple robot.
\<close>

definition scenario_b :: robot where
  "scenario_b =
     (new_robot SimpleForexTradingRobot)
       \<lparr>heap := (\<lambda>_. blank_trade)
          (0 := \<lparr>trade_id = 1, symbol = ''EURUSD'', strategy = ''Manual'', signal_type = ''BUY'',
                 entry_price = 11 / 10, stop_loss = 1095 / 1000, take_profit = None,
                 position_size = 100, entry_time = 0, status = ''OPEN'', exit_price = None,
                 exit_time = None, pnl = None, close_reason = None\<rparr>),
        next_ref := 1, active_trades := [0]\<rparr>"

text \<open>
  Three open trades and the prices fetched for them in one monitoring call: a BUY whose
  stop loss and take profit are both hit, a SELL for which no price is available, and a
  BUY that reaches its take profit only.
\<close>

definition scenario_trade :: "string \<Rightarrow> real \<Rightarrow> real option \<Rightarrow> trade" where
  "scenario_trade direction stop target =
     \<lparr>trade_id = 1, symbol = ''EURUSD'', strategy = ''Manual'', signal_type = direction,
      entry_price = 11 / 10, stop_loss = stop, take_profit = target,
      position_size = 100, entry_time = 0, status = ''OPEN'', exit_price = None,
      exit_time = None, pnl = None, close_reason = None\<rparr>"

definition scenario_monitor :: robot where
  "scenario_monitor =
     (new_robot ForexTradingRobot)
       \<lparr>heap := (\<lambda>_. blank_trade)
          (0 := scenario_trade ''BUY'' (12 / 10) (Some 1),
           1 := scenario_trade ''SELL'' (12 / 10) (Some 1),
           2 := scenario_trade ''BUY'' 1 (Some (12 / 10))),
        next_ref := 3, active_trades := [0, 1, 2]\<rparr>"

definition scenario_feed :: "nat \<Rightarrow> string \<Rightarrow> real" where
  "scenario_feed k s = (if k = 0 then 11 / 10 else if k = 1 then 0 else 125 / 100)"

text \<open>
  The numbering that the specification asks for, on the robot of the simple engine: the
  ids of all trades ever created are distinct and run from 1 to their number.
\<close>

definition unique_ids :: "robot \<Rightarrow> bool" where
  "unique_ids r \<longleftrightarrow>
     robot_class r = SimpleForexTradingRobot \<and> robot_inv r \<and> distinct (all_ids r) \<and>
     list_all (\<lambda>i. 1 \<le> i \<and> i \<le> length (all_ids r)) (all_ids r)"

text \<open>
  A BUY signal as \<^verbatim>\<open>TrendFollowingStrategy\<close> emits it at the close 1.0, completed by
  \<^verbatim>\<open>analyze_market\<close> with strategy name, symbol and time.
\<close>

definition example_signal :: "string \<Rightarrow> signal" where
  "example_signal symb =
     \<lparr>sg_signal = Some ''BUY'', sg_confidence = Some (7 / 10),
      sg_reason = Some (Plain ''Golden cross detected''), sg_entry_price = Some 1,
      sg_stop_loss = Some (98 / 100), sg_take_profit = Some (104 / 100),
      sg_strategy = Some ''Trend Following'', sg_symbol = Some symb,
      sg_timestamp = Some 0\<rparr>"

text \<open>
  A trade that has been handed out, whose take profit fails the truth test of
  \<^verbatim>\<open>monitor_trades\<close>, and that is open or was closed by its stop loss or by hand.
\<close>

definition no_take_profit :: "robot \<Rightarrow> ref \<Rightarrow> bool" where
  "no_take_profit r a \<longleftrightarrow>
     a < next_ref r \<and>
     (take_profit (heap r a) = None \<or> take_profit (heap r a) = Some 0) \<and>
     (close_reason (heap r a) = None \<or> close_reason (heap r a) = Some ''STOP_LOSS'' \<or>
      close_reason (heap r a) = Some ''MANUAL_CLOSE'')"

text \<open>
  An open trade with take profit 0, and a manual trade request with take profit 0.
\<close>

definition scenario_zero :: robot where
  "scenario_zero =
     (new_robot SimpleForexTradingRobot)
       \<lparr>heap := (\<lambda>_. blank_trade)(0 := scenario_trade ''BUY'' 1 (Some 0)),
        next_ref := 1, active_trades := [0]\<rparr>"

definition manual_request :: request where
  "manual_request =
     \<lparr>rq_symbol = Some ''EURUSD'', rq_signal = Some ''BUY'', rq_entry_price = Some (11 / 10),
      rq_stop_loss = Some 1, rq_take_profit = Some 0, rq_confidence = None\<rparr>"

section \<open>SimpleTechnicalIndicators (trading\_engine\_simple.py)\<close>

text \<open>
  \<^verbatim>\<open>xs[-n:]\<close>: the last \<open>n\<close> elements, all of them when there are fewer, and the whole
  list for \<open>n = 0\<close>. A period is a natural number here (the callers pass 5, 14, 15).
\<close>

definition slice_last :: "nat \<Rightarrow> 'a list \<Rightarrow> 'a list" where
  "slice_last n xs = (if n = 0 then xs else drop (length xs - n) xs)"

definition simple_sma :: "real list \<Rightarrow> nat \<Rightarrow> error + real" where
  "simple_sma prices period =
     (if length prices < period then Inr 0
      else py_div (sum_list (slice_last period prices)) (real period))"

text \<open>
  The loop of \<^verbatim>\<open>rsi\<close> over \<^verbatim>\<open>range(1, len(prices))\<close>: the changes from each price to the
  next, and for each change one entry of \<^verbatim>\<open>gains\<close> and one of \<^verbatim>\<open>losses\<close>.
\<close>

fun price_changes :: "real list \<Rightarrow> real list" where
  "price_changes (x # y # rest) = (y - x) # price_changes (y # rest)"
| "price_changes rest = []"

definition gains_of :: "real list \<Rightarrow> real list" where
  "gains_of prices = map (\<lambda>change. if change > 0 then change else 0) (price_changes prices)"

definition losses_of :: "real list \<Rightarrow> real list" where
  "losses_of prices = map (\<lambda>change. if change > 0 then 0 else \<bar>change\<bar>) (price_changes prices)"

definition simple_rsi :: "real list \<Rightarrow> nat \<Rightarrow> error + real" where
  "simple_rsi prices period =
     (if length prices < period + 1 then Inr 50
      else let gains = gains_of prices; losses = losses_of prices
           in if length gains < period then Inr 50
              else bind_err (py_div (sum_list (slice_last period gains)) (real period)) (\<lambda>avg_gain.
                   bind_err (py_div (sum_list (slice_last period losses)) (real period)) (\<lambda>avg_loss.
                   if avg_loss = 0 then Inr 100
                   else bind_err (py_div avg_gain avg_loss) (\<lambda>rs.
                        bind_err (py_div 100 (1 + rs)) (\<lambda>q. Inr (100 - q))))))"

section \<open>TechnicalIndicators (trading\_engine.py)\<close>

text \<open>
  A pandas Series is the list of its values. \<^verbatim>\<open>rolling(window=w).mean()\<close> is NaN where
  fewer than \<open>w\<close> values have been seen and the mean of the last \<open>w\<close> values elsewhere;
  \<^verbatim>\<open>rolling(window=w).std()\<close> is the sample standard deviation of the same window (NaN
  for a window of one value). Both are applied to finite numbers only.
\<close>

definition window :: "nat \<Rightarrow> real list \<Rightarrow> nat \<Rightarrow> real list" where
  "window w xs i = take w (drop (i + 1 - w) xs)"

definition rolling_mean :: "nat \<Rightarrow> real list \<Rightarrow> npfloat list" where
  "rolling_mean w xs =
     map (\<lambda>i. if w = 0 \<or> i + 1 < w then NaN else Fin (sum_list (window w xs i) / real w))
       [0..<length xs]"

definition sample_std :: "real list \<Rightarrow> real" where
  "sample_std ys =
     (let m = sum_list ys / real (length ys)
      in sqrt (sum_list (map (\<lambda>y. (y - m)\<^sup>2) ys) / real (length ys - 1)))"

definition rolling_std :: "nat \<Rightarrow> real list \<Rightarrow> npfloat list" where
  "rolling_std w xs =
     map (\<lambda>i. if w \<le> 1 \<or> i + 1 < w then NaN else Fin (sample_std (window w xs i)))
       [0..<length xs]"

definition sma :: "real list \<Rightarrow> nat \<Rightarrow> npfloat list" where
  "sma data period = rolling_mean period data"

text \<open>
  \<^verbatim>\<open>data.diff()\<close> has NaN first and the changes after it; \<^verbatim>\<open>delta.where(delta > 0, 0)\<close>
  keeps an element where the test is true and puts 0 elsewhere, so also for the NaN.
\<close>

definition diff_series :: "real list \<Rightarrow> npfloat list" where
  "diff_series data = (if data = [] then [] else NaN # map Fin (price_changes data))"

definition where_or_zero :: "(npfloat \<Rightarrow> bool) \<Rightarrow> npfloat list \<Rightarrow> real list" where
  "where_or_zero keep delta =
     map (\<lambda>d. case d of Fin v \<Rightarrow> if keep d then v else 0 | _ \<Rightarrow> 0) delta"

definition rsi :: "real list \<Rightarrow> nat \<Rightarrow> npfloat list" where
  "rsi data period =
     (let delta = diff_series data;
          gain = rolling_mean period (where_or_zero (\<lambda>d. fgt d (Fin 0)) delta);
          loss = rolling_mean period (map uminus (where_or_zero (\<lambda>d. flt d (Fin 0)) delta));
          rs = map2 fdiv gain loss
      in map (\<lambda>x. fsub (Fin 100) (fdiv (Fin 100) (fadd (Fin 1) x))) rs)"

text \<open>
  The two rolling averages inside \<^verbatim>\<open>rsi\<close>, by the names of its local variables.
\<close>

definition rsi_gain :: "real list \<Rightarrow> nat \<Rightarrow> npfloat list" where
  "rsi_gain data period =
     rolling_mean period (where_or_zero (\<lambda>d. fgt d (Fin 0)) (diff_series data))"

definition rsi_loss :: "real list \<Rightarrow> nat \<Rightarrow> npfloat list" where
  "rsi_loss data period =
     rolling_mean period (map uminus (where_or_zero (\<lambda>d. flt d (Fin 0)) (diff_series data)))"

definition bollinger_bands ::
  "real list \<Rightarrow> nat \<Rightarrow> real \<Rightarrow> npfloat list \<times> npfloat list \<times> npfloat list"
where
  "bollinger_bands data period std_dev =
     (let middle = sma data period;
          std = rolling_std period data;
          upper_band = map2 fadd middle (map (\<lambda>s. fmul s (Fin std_dev)) std);
          lower_band = map2 fsub middle (map (\<lambda>s. fmul s (Fin std_dev)) std)
      in (upper_band, middle, lower_band))"

text \<open>\<^verbatim>\<open>series.iloc[i]\<close>, negative positions counted from the end.\<close>

definition iloc :: "'a list \<Rightarrow> int \<Rightarrow> error + 'a" where
  "iloc series position =
     (if 0 \<le> position
        then (if nat position < length series then Inr (series ! nat position)
              else Inl IndexError)
      else (if nat (- position) \<le> length series
              then Inr (series ! (length series - nat (- position)))
            else Inl IndexError))"

text \<open>\<^verbatim>\<open>.max()\<close> and \<^verbatim>\<open>.min()\<close> of a Series of finite numbers: NaN when it is empty.\<close>

definition series_max :: "real list \<Rightarrow> npfloat" where
  "series_max xs = (case xs of [] \<Rightarrow> NaN | x # rest \<Rightarrow> Fin (fold max rest x))"

definition series_min :: "real list \<Rightarrow> npfloat" where
  "series_min xs = (case xs of [] \<Rightarrow> NaN | x # rest \<Rightarrow> Fin (fold min rest x))"

section \<open>Products of doubles\<close>

text \<open>
  \<^verbatim>\<open>x * 0.98\<close> on doubles is the exact product rounded to the nearest double. The
  strategies take the multiplication as a parameter \<open>mul\<close>; the exact product of the reals
  is one multiplication, the rounded product of the doubles another. Two properties of
  the rounded product are used: rounding keeps the order, so a positive number times
  the smaller factor is at most that number times the larger one; and a double times
  1.0 is that double, which tells the doubles among the reals.
\<close>

type_synonym multiplication = "real \<Rightarrow> real \<Rightarrow> real"

definition monotone_product :: "multiplication \<Rightarrow> bool" where
  "monotone_product mul \<longleftrightarrow> (\<forall>x a b. 0 < x \<and> a \<le> b \<longrightarrow> mul x a \<le> mul x b)"

definition representable :: "multiplication \<Rightarrow> real \<Rightarrow> bool" where
  "representable mul x \<longleftrightarrow> mul x 1 = x"

text \<open>
  Below \<^verbatim>\<open>2**-1022\<close> the doubles are the multiples of \<^verbatim>\<open>2**-1074\<close> (the smallest
  positive double, printed as \<^verbatim>\<open>5e-324\<close>), and a product in that range is rounded to
  the nearest multiple, to the even one of two that are equally near. So
  \<open>subnormal_product\<close> is the product of two doubles wherever the exact product is below
  \<^verbatim>\<open>2**-1022\<close>; above, doubles are rounded more coarsely.
\<close>

definition round_even :: "real \<Rightarrow> int" where
  "round_even x =
     (let n = \<lfloor>x\<rfloor>; rest = x - of_int n
      in if rest < 1 / 2 then n else if 1 / 2 < rest then n + 1
         else if even n then n else n + 1)"

definition subnormal_product :: multiplication where
  "subnormal_product x y = of_int (round_even (x * y * 2 ^ 1074)) / 2 ^ 1074"

section \<open>The strategies of trading\_engine.py\<close>

text \<open>
  The DataFrame of \<^verbatim>\<open>get_historical_data\<close> is the list of its rows, each with the
  columns that the strategies read; \<^verbatim>\<open>data['Close']\<close> is \<open>map Close data\<close>.
\<close>

record bar =
  Open :: real
  High :: real
  Low :: real
  Close :: real
  Volume :: real

datatype strategy = TrendFollowingStrategy | MeanReversionStrategy | BreakoutStrategy

definition hold :: "string \<Rightarrow> signal" where
  "hold why =
     \<lparr>sg_signal = Some ''HOLD'', sg_confidence = Some 0, sg_reason = Some (Plain why),
      sg_entry_price = None, sg_stop_loss = None, sg_take_profit = None,
      sg_strategy = None, sg_symbol = None, sg_timestamp = None\<rparr>"

definition trade_signal ::
  "string \<Rightarrow> real \<Rightarrow> reason \<Rightarrow> real \<Rightarrow> real \<Rightarrow> real option \<Rightarrow> signal"
where
  "trade_signal direction conf why entry stop target =
     \<lparr>sg_signal = Some direction, sg_confidence = Some conf, sg_reason = Some why,
      sg_entry_price = Some entry, sg_stop_loss = Some stop, sg_take_profit = target,
      sg_strategy = None, sg_symbol = None, sg_timestamp = None\<rparr>"

text \<open>
  A number taken out of a Series to be stored as a price. The strategies do this with
  the middle Bollinger band only, in a branch where the band is a finite number.
\<close>

definition as_price :: "npfloat \<Rightarrow> real option" where
  "as_price v = (case v of Fin x \<Rightarrow> Some x | _ \<Rightarrow> None)"

definition trend_following :: "multiplication \<Rightarrow> bar list \<Rightarrow> error + signal" where
  "trend_following mul data =
     (if length data < 30 then Inr (hold ''Insufficient data'')
      else let close_prices = map Close data;
               short_ma = sma close_prices 10;
               long_ma = sma close_prices 30
           in bind_err (iloc short_ma (- 1)) (\<lambda>current_short.
              bind_err (iloc long_ma (- 1)) (\<lambda>current_long.
              bind_err (iloc short_ma (- 2)) (\<lambda>prev_short.
              bind_err (iloc long_ma (- 2)) (\<lambda>prev_long.
              if fle prev_short prev_long \<and> fgt current_short current_long
                then bind_err (iloc close_prices (- 1)) (\<lambda>c.
                     Inr (trade_signal ''BUY'' (7 / 10) (Plain ''Golden cross detected'')
                            c (mul c (98 / 100)) (Some (mul c (104 / 100)))))
              else if fge prev_short prev_long \<and> flt current_short current_long
                then bind_err (iloc close_prices (- 1)) (\<lambda>c.
                     Inr (trade_signal ''SELL'' (7 / 10) (Plain ''Death cross detected'')
                            c (mul c (102 / 100)) (Some (mul c (96 / 100)))))
              else Inr (hold ''No clear trend signal''))))))"

definition mean_reversion :: "multiplication \<Rightarrow> bar list \<Rightarrow> error + signal" where
  "mean_reversion mul data =
     (if length data < max 14 20 then Inr (hold ''Insufficient data'')
      else let close_prices = map Close data;
               rsi_series = rsi close_prices 14;
               bands = bollinger_bands close_prices 20 2;
               upper_bb = fst bands;
               middle_bb = fst (snd bands);
               lower_bb = snd (snd bands)
           in bind_err (iloc rsi_series (- 1)) (\<lambda>current_rsi.
              bind_err (iloc close_prices (- 1)) (\<lambda>current_price.
              bind_err (iloc upper_bb (- 1)) (\<lambda>current_upper.
              bind_err (iloc lower_bb (- 1)) (\<lambda>current_lower.
              if flt current_rsi (Fin 30) \<and> flt (Fin current_price) current_lower
                then bind_err (iloc middle_bb (- 1)) (\<lambda>middle.
                     Inr (trade_signal ''BUY'' (8 / 10)
                            (Formatted ''Oversold: RSI='' current_rsi 2 '', Price below lower BB'')
                            current_price (mul current_price (97 / 100)) (as_price middle)))
              else if fgt current_rsi (Fin 70) \<and> fgt (Fin current_price) current_upper
                then bind_err (iloc middle_bb (- 1)) (\<lambda>middle.
                     Inr (trade_signal ''SELL'' (8 / 10)
                            (Formatted ''Overbought: RSI='' current_rsi 2 '', Price above upper BB'')
                            current_price (mul current_price (103 / 100)) (as_price middle)))
              else Inr (hold ''No mean reversion signal''))))))"

text \<open>
  In \<^verbatim>\<open>BreakoutStrategy\<close> the two levels are the maximum and the minimum of at least 20
  numbers. Were one of them NaN, both comparisons would be false and the result the
  last HOLD.
\<close>

definition breakout :: "multiplication \<Rightarrow> bar list \<Rightarrow> error + signal" where
  "breakout mul data =
     (if length data < 20 then Inr (hold ''Insufficient data'')
      else let recent_data = slice_last 20 data
           in bind_err (iloc (map Close data) (- 1)) (\<lambda>current_price.
              case (series_max (map High recent_data), series_min (map Low recent_data)) of
                (Fin resistance, Fin support) \<Rightarrow>
                  if current_price > mul resistance (1001 / 1000)
                    then Inr (trade_signal ''BUY'' (75 / 100)
                                (Formatted ''Breakout above resistance at '' (Fin resistance) 5 [])
                                current_price (mul resistance (999 / 1000))
                                (Some (current_price + mul (current_price - resistance) 2)))
                  else if current_price < mul support (999 / 1000)
                    then Inr (trade_signal ''SELL'' (75 / 100)
                                (Formatted ''Breakdown below support at '' (Fin support) 5 [])
                                current_price (mul support (1001 / 1000))
                                (Some (current_price - mul (support - current_price) 2)))
                  else Inr (hold ''No breakout signal'')
              | _ \<Rightarrow> Inr (hold ''No breakout signal'')))"

definition generate_signal :: "multiplication \<Rightarrow> strategy \<Rightarrow> bar list \<Rightarrow> error + signal" where
  "generate_signal mul s data =
     (case s of
        TrendFollowingStrategy \<Rightarrow> trend_following mul data
      | MeanReversionStrategy \<Rightarrow> mean_reversion mul data
      | BreakoutStrategy \<Rightarrow> breakout mul data)"

definition positive_prices :: "bar list \<Rightarrow> bool" where
  "positive_prices data =
     list_all (\<lambda>b. 0 < Open b \<and> 0 < High b \<and> 0 < Low b \<and> 0 < Close b) data"

text \<open>The closes of a series are doubles.\<close>

definition float_closes :: "multiplication \<Rightarrow> bar list \<Rightarrow> bool" where
  "float_closes mul data = list_all (\<lambda>b. representable mul (Close b)) data"

text \<open>
  The number of rows below which a strategy answers HOLD without looking at the data:
  \<^verbatim>\<open>long_ma_period\<close>, \<^verbatim>\<open>max(rsi_period, bb_period)\<close> and \<^verbatim>\<open>lookback_period\<close>.
\<close>

definition min_lookback :: "strategy \<Rightarrow> nat" where
  "min_lookback s =
     (case s of TrendFollowingStrategy \<Rightarrow> 30 | MeanReversionStrategy \<Rightarrow> max 14 20
      | BreakoutStrategy \<Rightarrow> 20)"

text \<open>
  A signal is a HOLD, or a BUY with a positive entry and its stop not above the entry,
  or a SELL with a positive entry and its stop not below the entry; and where the stop is the entry, the signal is one of
  \<^verbatim>\<open>TrendFollowingStrategy\<close> or \<^verbatim>\<open>MeanReversionStrategy\<close> and the product of the entry
  with the factor of that strategy is the entry again.
\<close>

definition stop_placed :: "multiplication \<Rightarrow> strategy \<Rightarrow> signal \<Rightarrow> bool" where
  "stop_placed mul s sg \<longleftrightarrow>
     (\<exists>why. sg = hold why) \<or>
     (\<exists>conf why entry stop target.
        sg = trade_signal ''BUY'' conf why entry stop target \<and> 0 < entry \<and> stop \<le> entry \<and>
        (stop = entry \<longrightarrow>
           (s = TrendFollowingStrategy \<and> mul entry (98 / 100) = entry) \<or>
           (s = MeanReversionStrategy \<and> mul entry (97 / 100) = entry))) \<or>
     (\<exists>conf why entry stop target.
        sg = trade_signal ''SELL'' conf why entry stop target \<and> 0 < entry \<and> entry \<le> stop \<and>
        (stop = entry \<longrightarrow>
           (s = TrendFollowingStrategy \<and> mul entry (102 / 100) = entry) \<or>
           (s = MeanReversionStrategy \<and> mul entry (103 / 100) = entry)))"

text \<open>
  Price series for the examples: rows whose four prices are equal, 30 closes at one
  level and a last close that pulls the short average across the long one.
\<close>

definition flat_bar :: "real \<Rightarrow> bar" where
  "flat_bar c = \<lparr>Open = c, High = c, Low = c, Close = c, Volume = 0\<rparr>"

definition golden_cross_data :: "bar list" where
  "golden_cross_data = map flat_bar (replicate 30 1 @ [2])"

definition death_cross_data :: "bar list" where
  "death_cross_data = map flat_bar (replicate 30 2 @ [1])"

text \<open>Thirty closes of 1.0 followed by the smallest positive double.\<close>

definition smallest_double :: real where
  "smallest_double = 1 / 2 ^ 1074"

definition subnormal_cross_data :: "bar list" where
  "subnormal_cross_data = map flat_bar (replicate 30 1 @ [smallest_double])"

section \<open>Properties of the risk manager\<close>

lemma has_required_fields:
  "list_all (\<lambda>field. has_key s field) required_fields \<longleftrightarrow>
     sg_signal s \<noteq> None \<and> sg_entry_price s \<noteq> None \<and> sg_stop_loss s \<noteq> None"
  by (simp add: required_fields_def has_key_def)













text \<open>
  C4. \<^verbatim>\<open>validate_trade\<close> checks, in this order, the daily loss limit, the three required
  keys and the confidence (0 when the key is absent) against 0.6; the first check that
  fails decides the rejection and its log line, and the signal is accepted exactly when
  none fails. So a confidence below 0.6 always rejects, and with the default limit
  every signal is rejected once the daily loss reaches 5% of the balance.
\<close>

theorem validate_trade_order:
  "validate_trade_logged rm s =
     (if daily_pnl rm \<le> - account_balance rm * max_daily_loss rm
        then (False, Some msg_daily_loss)
      else if sg_signal s = None \<or> sg_entry_price s = None \<or> sg_stop_loss s = None
        then (False, Some msg_missing_fields)
      else if get_confidence s 0 < 6 / 10
        then (False, Some msg_low_confidence)
      else (True, None)) \<and>
   (validate_trade rm s \<longleftrightarrow>
      \<not> daily_pnl rm \<le> - account_balance rm * max_daily_loss rm \<and>
      \<not> (sg_signal s = None \<or> sg_entry_price s = None \<or> sg_stop_loss s = None) \<and>
      \<not> get_confidence s 0 < 6 / 10) \<and>
   (get_confidence s 0 < 6 / 10 \<longrightarrow> \<not> validate_trade rm s) \<and>
   (max_daily_loss rm = 5 / 100 \<and> daily_pnl rm \<le> - account_balance rm * (5 / 100) \<longrightarrow>
      \<not> validate_trade rm s)"
proof -
  have logged: "validate_trade_logged rm s =
     (if daily_pnl rm \<le> - account_balance rm * max_daily_loss rm
        then (False, Some msg_daily_loss)
      else if sg_signal s = None \<or> sg_entry_price s = None \<or> sg_stop_loss s = None
        then (False, Some msg_missing_fields)
      else if get_confidence s 0 < 6 / 10
        then (False, Some msg_low_confidence)
      else (True, None))"
    unfolding validate_trade_logged_def has_required_fields by auto
  have verdict: "validate_trade rm s \<longleftrightarrow>
      \<not> daily_pnl rm \<le> - account_balance rm * max_daily_loss rm \<and>
      \<not> (sg_signal s = None \<or> sg_entry_price s = None \<or> sg_stop_loss s = None) \<and>
      \<not> get_confidence s 0 < 6 / 10"
    unfolding validate_trade_def logged by auto
  have low: "get_confidence s 0 < 6 / 10 \<longrightarrow> \<not> validate_trade rm s"
    using verdict by blast
  have breaker: "max_daily_loss rm = 5 / 100 \<and> daily_pnl rm \<le> - account_balance rm * (5 / 100)
      \<longrightarrow> \<not> validate_trade rm s"
  proof
    assume h: "max_daily_loss rm = 5 / 100 \<and> daily_pnl rm \<le> - account_balance rm * (5 / 100)"
    then have "daily_pnl rm \<le> - account_balance rm * max_daily_loss rm"
      by (simp only:)
    with verdict show "\<not> validate_trade rm s" by blast
  qed
  from logged verdict low breaker show ?thesis by blast
qed

theorem validate_trade_order_witness:
  "\<not> validate_trade (default_risk_manager\<lparr>daily_pnl := - 500\<rparr>)
       \<lparr>sg_signal = Some ''BUY'', sg_confidence = Some 1, sg_reason = None,
        sg_entry_price = Some 1, sg_stop_loss = Some (9 / 10), sg_take_profit = None,
        sg_strategy = None, sg_symbol = None, sg_timestamp = None\<rparr> \<and>
   \<not> validate_trade default_risk_manager
       \<lparr>sg_signal = Some ''BUY'', sg_confidence = Some (5 / 10), sg_reason = None,
        sg_entry_price = Some 1, sg_stop_loss = Some (9 / 10), sg_take_profit = None,
        sg_strategy = None, sg_symbol = None, sg_timestamp = None\<rparr> \<and>
   validate_trade default_risk_manager
       \<lparr>sg_signal = Some ''BUY'', sg_confidence = Some (6 / 10), sg_reason = None,
        sg_entry_price = Some 1, sg_stop_loss = Some (9 / 10), sg_take_profit = None,
        sg_strategy = None, sg_symbol = None, sg_timestamp = None\<rparr>"
  using
    validate_trade_order [of "default_risk_manager\<lparr>daily_pnl := - 500\<rparr>"
       "\<lparr>sg_signal = Some ''BUY'', sg_confidence = Some 1, sg_reason = None,
        sg_entry_price = Some 1, sg_stop_loss = Some (9 / 10), sg_take_profit = None,
        sg_strategy = None, sg_symbol = None, sg_timestamp = None\<rparr>"]
    validate_trade_order [of default_risk_manager
       "\<lparr>sg_signal = Some ''BUY'', sg_confidence = Some (5 / 10), sg_reason = None,
        sg_entry_price = Some 1, sg_stop_loss = Some (9 / 10), sg_take_profit = None,
        sg_strategy = None, sg_symbol = None, sg_timestamp = None\<rparr>"]
    validate_trade_order [of default_risk_manager
       "\<lparr>sg_signal = Some ''BUY'', sg_confidence = Some (6 / 10), sg_reason = None,
        sg_entry_price = Some 1, sg_stop_loss = Some (9 / 10), sg_take_profit = None,
        sg_strategy = None, sg_symbol = None, sg_timestamp = None\<rparr>"]
  by (simp add: default_risk_manager_def RiskManager_def get_confidence_def)

section \<open>Closing and monitoring on well-formed robots\<close>


lemma list_remove_absent: "\<forall>b\<in>set xs. h b \<noteq> v \<Longrightarrow> list_remove h v xs = None"
  by (induction xs) auto

lemma list_remove_first:
  "a \<in> set xs \<Longrightarrow> h a = v \<Longrightarrow> \<forall>b\<in>set xs. b \<noteq> a \<longrightarrow> h b \<noteq> v \<Longrightarrow>
     list_remove h v xs = Some (remove1 a xs)"
  by (induction xs) auto

lemma list_remove_split:
  "list_remove h v xs = Some ys \<Longrightarrow> \<exists>us b vs. xs = us @ b # vs \<and> ys = us @ vs \<and> h b = v"
proof (induction xs arbitrary: ys)
  case Nil
  then show ?case by simp
next
  case (Cons x xs)
  show ?case
  proof (cases "h x = v")
    case True
    with Cons.prems have "ys = xs" by simp
    with True have "x # xs = [] @ x # xs \<and> ys = [] @ xs \<and> h x = v" by simp
    then show ?thesis by blast
  next
    case False
    with Cons.prems obtain zs where zs: "list_remove h v xs = Some zs" "ys = x # zs"
      by (auto split: option.splits)
    from Cons.IH [OF zs(1)] obtain us b vs where "xs = us @ b # vs" "zs = us @ vs" "h b = v"
      by blast
    with zs(2) have "x # xs = (x # us) @ b # vs \<and> ys = (x # us) @ vs \<and> h b = v" by simp
    then show ?thesis by blast
  qed
qed

lemma closed_trade_status [simp]: "status (closed_trade t p n w) = ''CLOSED''"
  by (simp add: closed_trade_def)

lemma close_trade_active:
  assumes inv: "robot_inv r" and act: "a \<in> set (active_trades r)"
  shows "close_trade now r a price why =
     (Returned (),
      r\<lparr>heap := (heap r)(a := closed_trade (heap r a) price now why),
        risk_manager := apply_pnl (trade_pnl (heap r a) price) (risk_manager r),
        active_trades := remove1 a (active_trades r),
        trade_history := trade_history r @ [a]\<rparr>)"
proof -
  let ?t = "closed_trade (heap r a) price now why"
  let ?h = "(heap r)(a := ?t)"
  have others: "\<forall>b\<in>set (active_trades r). b \<noteq> a \<longrightarrow> ?h b \<noteq> ?t"
  proof (intro ballI impI)
    fix b assume b: "b \<in> set (active_trades r)" "b \<noteq> a"
    with inv have "status (heap r b) = ''OPEN''"
      by (simp add: robot_inv_def list_all_iff)
    then have "status (?h b) \<noteq> status ?t" using b(2) by simp
    then show "?h b \<noteq> ?t" by metis
  qed
  have "list_remove ?h ?t (active_trades r) = Some (remove1 a (active_trades r))"
    using act others by (intro list_remove_first) simp_all
  then show ?thesis by (simp add: close_trade_def Let_def)
qed

lemma execute_trade_False: "execute_trade now sg r = (Returned False, r') \<Longrightarrow> r' = r"
  by (auto simp: execute_trade_def Let_def split: if_splits option.splits sum.splits)


lemma robot_inv_new: "robot_inv (new_robot eng)"
  by (simp add: robot_inv_def new_robot_def)

lemma robot_inv_execute:
  assumes "robot_inv r" and "execute_trade now sg r = (out, r')"
  shows "robot_inv r'"
  using assms
  by (auto simp: execute_trade_def Let_def robot_inv_def list_all_iff less_Suc_eq
      split: if_splits option.splits sum.splits)

lemma close_trade_inactive:
  assumes inv: "robot_inv r" and act: "a \<notin> set (active_trades r)"
  shows "close_trade now r a price why =
     (Raised ValueError,
      r\<lparr>heap := (heap r)(a := closed_trade (heap r a) price now why),
        risk_manager := apply_pnl (trade_pnl (heap r a) price) (risk_manager r)\<rparr>)"
proof -
  let ?t = "closed_trade (heap r a) price now why"
  let ?h = "(heap r)(a := ?t)"
  have "\<forall>b\<in>set (active_trades r). ?h b \<noteq> ?t"
  proof
    fix b assume b: "b \<in> set (active_trades r)"
    with act have ne: "b \<noteq> a" by blast
    from b inv have "status (heap r b) = ''OPEN''"
      by (simp add: robot_inv_def list_all_iff)
    then have "status (?h b) \<noteq> status ?t" using ne by simp
    then show "?h b \<noteq> ?t" by metis
  qed
  then have "list_remove ?h ?t (active_trades r) = None"
    by (rule list_remove_absent)
  then show ?thesis by (simp add: close_trade_def Let_def)
qed

lemma robot_inv_close:
  assumes inv: "robot_inv r" and run: "close_trade now r a price why = (out, r')"
  shows "robot_inv r'"
proof (cases "a \<in> set (active_trades r)")
  case True
  from close_trade_active [OF inv True, of now price why] run
  have r': "r' = r\<lparr>heap := (heap r)(a := closed_trade (heap r a) price now why),
        risk_manager := apply_pnl (trade_pnl (heap r a) price) (risk_manager r),
        active_trades := remove1 a (active_trades r),
        trade_history := trade_history r @ [a]\<rparr>"
    by simp
  from inv True show ?thesis
    unfolding r' robot_inv_def list_all_iff
    by (auto dest: notin_set_remove1)
next
  case False
  from close_trade_inactive [OF inv False, of now price why] run
  have r': "r' = r\<lparr>heap := (heap r)(a := closed_trade (heap r a) price now why),
        risk_manager := apply_pnl (trade_pnl (heap r a) price) (risk_manager r)\<rparr>"
    by simp
  from inv False show ?thesis
    unfolding r' robot_inv_def list_all_iff by auto
qed

lemma monitor_step_active:
  assumes inv: "robot_inv r" and act: "a \<in> set (active_trades r)"
  shows "monitor_step now p a r =
     (Returned (),
      case monitor_decision (heap r a) p of
        None \<Rightarrow> r
      | Some why \<Rightarrow>
          r\<lparr>heap := (heap r)(a := closed_trade (heap r a) p now why),
            risk_manager := apply_pnl (trade_pnl (heap r a) p) (risk_manager r),
            active_trades := remove1 a (active_trades r),
            trade_history := trade_history r @ [a]\<rparr>)"
  by (simp add: monitor_step_def close_trade_active [OF inv act] split: option.splits)


lemma monitored_status:
  "status t = ''OPEN'' \<Longrightarrow>
     (status (monitored t p now) = ''OPEN'') = (monitor_decision t p = None)"
  by (simp add: monitored_def split: option.splits)

lemma monitored_realized:
  "monitor_decision t p \<noteq> None \<Longrightarrow> realized (monitored t p now) = trade_pnl t p"
  by (auto simp: monitored_def realized_def closed_trade_def split: option.splits)

lemma monitor_step_effect:
  assumes inv: "robot_inv r" and act: "a \<in> set (active_trades r)"
  obtains r1 where
    "monitor_step now p a r = (Returned (), r1)"
    "robot_inv r1"
    "next_ref r1 = next_ref r"
    "heap r1 = (heap r)(a := monitored (heap r a) p now)"
    "active_trades r1 =
       (if monitor_decision (heap r a) p = None then active_trades r
        else remove1 a (active_trades r))"
    "trade_history r1 =
       trade_history r @ (if monitor_decision (heap r a) p = None then [] else [a])"
    "risk_manager r1 =
       (if monitor_decision (heap r a) p = None then risk_manager r
        else apply_pnl (trade_pnl (heap r a) p) (risk_manager r))"
proof (cases "monitor_decision (heap r a) p")
  case None
  show ?thesis
  proof (rule that [of r])
    show "monitor_step now p a r = (Returned (), r)"
      by (simp add: monitor_step_def None)
    show "heap r = (heap r)(a := monitored (heap r a) p now)"
      by (simp add: monitored_def None)
  qed (simp_all add: inv None)
next
  case (Some why)
  let ?r1 = "r\<lparr>heap := (heap r)(a := closed_trade (heap r a) p now why),
            risk_manager := apply_pnl (trade_pnl (heap r a) p) (risk_manager r),
            active_trades := remove1 a (active_trades r),
            trade_history := trade_history r @ [a]\<rparr>"
  have step: "monitor_step now p a r = (Returned (), ?r1)"
    by (simp add: monitor_step_def Some close_trade_active [OF inv act])
  have "close_trade now r a p why = (Returned (), ?r1)"
    by (rule close_trade_active [OF inv act])
  then have inv1: "robot_inv ?r1" by (rule robot_inv_close [OF inv])
  show ?thesis
  proof (rule that [of ?r1])
    show "heap ?r1 = (heap r)(a := monitored (heap r a) p now)"
      by (simp add: monitored_def Some)
  qed (simp_all add: step inv1 Some)
qed

lemma monitor_loop_spec:
  "robot_inv r \<Longrightarrow> distinct snap \<Longrightarrow> set snap \<subseteq> set (active_trades r) \<Longrightarrow>
   monitor_loop feed clock k snap r = (out, r') \<Longrightarrow>
     out = Returned () \<and> robot_inv r' \<and> next_ref r' = next_ref r \<and>
     (\<forall>b. b \<notin> set snap \<longrightarrow> heap r' b = heap r b) \<and>
     (\<forall>i<length snap.
        heap r' (snap ! i) =
          monitored (heap r (snap ! i)) (feed (k + i) (symbol (heap r (snap ! i)))) (clock (k + i))) \<and>
     active_trades r' =
       filter (\<lambda>b. b \<notin> set snap \<or> status (heap r' b) = ''OPEN'') (active_trades r) \<and>
     trade_history r' =
       trade_history r @ filter (\<lambda>b. status (heap r' b) \<noteq> ''OPEN'') snap \<and>
     risk_manager r' =
       apply_pnl (sum_list (map (\<lambda>b. realized (heap r' b))
                    (filter (\<lambda>b. status (heap r' b) \<noteq> ''OPEN'') snap)))
         (risk_manager r)"
proof (induction snap arbitrary: r k)
  case Nil
  then show ?case by (simp add: apply_pnl_def)
next
  case (Cons a rest)
  let ?p = "feed k (symbol (heap r a))"
  let ?d = "monitor_decision (heap r a) ?p"
  from Cons.prems have act: "a \<in> set (active_trades r)" and fresh: "a \<notin> set rest"
    and drest: "distinct rest" and sub: "set rest \<subseteq> set (active_trades r)"
    and dact: "distinct (active_trades r)"
    by (auto simp: robot_inv_def)
  from Cons.prems act have open_a: "status (heap r a) = ''OPEN''"
    by (simp add: robot_inv_def list_all_iff)
  obtain r1 where step: "monitor_step (clock k) ?p a r = (Returned (), r1)"
    and inv1: "robot_inv r1" and ref1: "next_ref r1 = next_ref r"
    and heap1: "heap r1 = (heap r)(a := monitored (heap r a) ?p (clock k))"
    and act1: "active_trades r1 = (if ?d = None then active_trades r else remove1 a (active_trades r))"
    and hist1: "trade_history r1 = trade_history r @ (if ?d = None then [] else [a])"
    and rm1: "risk_manager r1 =
       (if ?d = None then risk_manager r else apply_pnl (trade_pnl (heap r a) ?p) (risk_manager r))"
    by (rule monitor_step_effect [OF Cons.prems(1) act])
  from Cons.prems(4) step have loop: "monitor_loop feed clock (Suc k) rest r1 = (out, r')"
    by simp
  from sub fresh dact have sub1: "set rest \<subseteq> set (active_trades r1)"
    by (auto simp: act1)
  note IH = Cons.IH [OF inv1 drest sub1 loop]
  from IH fresh have heap_a: "heap r' a = monitored (heap r a) ?p (clock k)"
    by (simp add: heap1)
  have status_a: "(status (heap r' a) = ''OPEN'') = (?d = None)"
    unfolding heap_a by (rule monitored_status [OF open_a])
  have others: "\<forall>b. b \<notin> set (a # rest) \<longrightarrow> heap r' b = heap r b"
    using IH by (simp add: heap1)
  have visited: "\<forall>i<length (a # rest).
        heap r' ((a # rest) ! i) =
          monitored (heap r ((a # rest) ! i)) (feed (k + i) (symbol (heap r ((a # rest) ! i))))
            (clock (k + i))"
  proof (intro allI impI)
    fix i assume i: "i < length (a # rest)"
    show "heap r' ((a # rest) ! i) =
          monitored (heap r ((a # rest) ! i)) (feed (k + i) (symbol (heap r ((a # rest) ! i))))
            (clock (k + i))"
    proof (cases i)
      case 0
      then show ?thesis by (simp add: heap_a)
    next
      case (Suc j)
      with i have j: "j < length rest" by simp
      then have "rest ! j \<in> set rest" by simp
      with fresh have ne: "rest ! j \<noteq> a" by blast
      from IH j have "heap r' (rest ! j) =
          monitored (heap r1 (rest ! j)) (feed (Suc k + j) (symbol (heap r1 (rest ! j))))
            (clock (Suc k + j))"
        by blast
      with ne show ?thesis by (simp add: Suc heap1)
    qed
  qed
  have active: "active_trades r' =
       filter (\<lambda>b. b \<notin> set (a # rest) \<or> status (heap r' b) = ''OPEN'') (active_trades r)"
  proof -
    from IH have "active_trades r' =
       filter (\<lambda>b. b \<notin> set rest \<or> status (heap r' b) = ''OPEN'') (active_trades r1)"
      by blast
    also have "\<dots> = filter (\<lambda>b. b \<notin> set (a # rest) \<or> status (heap r' b) = ''OPEN'') (active_trades r)"
    proof (cases "?d = None")
      case True
      then show ?thesis using status_a fresh
        by (auto simp: act1 intro!: filter_cong)
    next
      case False
      have "remove1 a (active_trades r) = filter (\<lambda>b. b \<noteq> a) (active_trades r)"
        using dact by (simp add: distinct_remove1_removeAll removeAll_filter_not_eq) metis
      then show ?thesis using False status_a
        by (auto simp: act1 intro!: filter_cong)
    qed
    finally show ?thesis .
  qed
  have history: "trade_history r' =
       trade_history r @ filter (\<lambda>b. status (heap r' b) \<noteq> ''OPEN'') (a # rest)"
    using IH status_a by (simp add: hist1)
  have risk: "risk_manager r' =
       apply_pnl (sum_list (map (\<lambda>b. realized (heap r' b))
                    (filter (\<lambda>b. status (heap r' b) \<noteq> ''OPEN'') (a # rest))))
         (risk_manager r)"
  proof (cases "?d = None")
    case True
    with IH status_a show ?thesis by (simp add: rm1)
  next
    case False
    then have "realized (heap r' a) = trade_pnl (heap r a) ?p"
      unfolding heap_a by (rule monitored_realized)
    with IH status_a False show ?thesis
      by (simp add: rm1 apply_pnl_def add.assoc)
  qed
  from IH have "out = Returned ()" "robot_inv r'" "next_ref r' = next_ref r"
    by (simp_all add: ref1)
  with others visited active history risk show ?case by blast
qed

section \<open>Opening and closing trades\<close>

text \<open>
  C9. Whenever \<^verbatim>\<open>execute_trade\<close> returns \<^verbatim>\<open>False\<close> the robot is exactly as before the
  call: the two lists, the trades behind them, the balance and the daily P/L. It returns
  \<^verbatim>\<open>False\<close> when \<^verbatim>\<open>validate_trade\<close> rejects the signal and when the position size is not
  positive.
\<close>

theorem execute_trade_rejection_atomic:
  "(execute_trade now sg r = (Returned False, r') \<longrightarrow> r' = r) \<and>
   (\<not> validate_trade (risk_manager r) sg \<longrightarrow> execute_trade now sg r = (Returned False, r)) \<and>
   (validate_trade (risk_manager r) sg \<and> sg_entry_price sg = Some entry \<and>
    sg_stop_loss sg = Some stop \<and>
    calculate_position_size (risk_manager r) entry stop = Inr psize \<and> psize \<le> 0 \<longrightarrow>
      execute_trade now sg r = (Returned False, r))"
proof (intro conjI impI)
  assume "execute_trade now sg r = (Returned False, r')"
  then show "r' = r" by (rule execute_trade_False)
next
  assume "\<not> validate_trade (risk_manager r) sg"
  then show "execute_trade now sg r = (Returned False, r)"
    by (simp add: execute_trade_def)
next
  assume "validate_trade (risk_manager r) sg \<and> sg_entry_price sg = Some entry \<and>
    sg_stop_loss sg = Some stop \<and>
    calculate_position_size (risk_manager r) entry stop = Inr psize \<and> psize \<le> 0"
  then show "execute_trade now sg r = (Returned False, r)"
    by (simp add: execute_trade_def)
qed

theorem execute_trade_rejection_atomic_witness:
  "execute_trade 7
     \<lparr>sg_signal = Some ''BUY'', sg_confidence = Some (5 / 10), sg_reason = None,
      sg_entry_price = Some 1, sg_stop_loss = Some (9 / 10), sg_take_profit = None,
      sg_strategy = Some ''Manual'', sg_symbol = Some ''EURUSD'', sg_timestamp = None\<rparr>
     (new_robot SimpleForexTradingRobot) = (Returned False, new_robot SimpleForexTradingRobot) \<and>
   execute_trade 7
     \<lparr>sg_signal = Some ''BUY'', sg_confidence = Some 1, sg_reason = None,
      sg_entry_price = Some 1, sg_stop_loss = Some 1, sg_take_profit = None,
      sg_strategy = Some ''Manual'', sg_symbol = Some ''EURUSD'', sg_timestamp = None\<rparr>
     (new_robot ForexTradingRobot) = (Returned False, new_robot ForexTradingRobot)"
  using
    execute_trade_rejection_atomic [of 7
     "\<lparr>sg_signal = Some ''BUY'', sg_confidence = Some (5 / 10), sg_reason = None,
      sg_entry_price = Some 1, sg_stop_loss = Some (9 / 10), sg_take_profit = None,
      sg_strategy = Some ''Manual'', sg_symbol = Some ''EURUSD'', sg_timestamp = None\<rparr>"
     "new_robot SimpleForexTradingRobot" "new_robot SimpleForexTradingRobot" 1 1 0]
    execute_trade_rejection_atomic [of 7
     "\<lparr>sg_signal = Some ''BUY'', sg_confidence = Some 1, sg_reason = None,
      sg_entry_price = Some 1, sg_stop_loss = Some 1, sg_take_profit = None,
      sg_strategy = Some ''Manual'', sg_symbol = Some ''EURUSD'', sg_timestamp = None\<rparr>"
     "new_robot ForexTradingRobot" "new_robot ForexTradingRobot" 1 1 0]
  by (simp add: new_robot_def default_risk_manager_def RiskManager_def validate_trade_def
      validate_trade_logged_def has_required_fields get_confidence_def
      calculate_position_size_def)

text \<open>
  C2. Closing an open trade of a well-formed robot returns normally. The realized P/L is
  (exit - entry) * size for a BUY and (entry - exit) * size for a SELL; exit price, exit
  time, P/L and reason are written into the trade and its status becomes CLOSED; the
  trade leaves \<^verbatim>\<open>active_trades\<close>, is appended to \<^verbatim>\<open>trade_history\<close>, where it then occurs
  once, and the P/L is added once to the balance and to the daily P/L. No other trade
  changes.
\<close>

theorem close_trade_bookkeeping:
  assumes inv: "robot_inv r" and act: "a \<in> set (active_trades r)"
    and run: "close_trade now r a price why = (out, r')"
  shows "out = Returned () \<and>
     (signal_type (heap r a) = ''BUY'' \<longrightarrow>
        pnl (heap r' a) = Some ((price - entry_price (heap r a)) * position_size (heap r a))) \<and>
     (signal_type (heap r a) = ''SELL'' \<longrightarrow>
        pnl (heap r' a) = Some ((entry_price (heap r a) - price) * position_size (heap r a))) \<and>
     exit_price (heap r' a) = Some price \<and> exit_time (heap r' a) = Some now \<and>
     close_reason (heap r' a) = Some why \<and> status (heap r' a) = ''CLOSED'' \<and>
     a \<notin> set (active_trades r') \<and> active_trades r' = remove1 a (active_trades r) \<and>
     trade_history r' = trade_history r @ [a] \<and> count_list (trade_history r') a = 1 \<and>
     account_balance (risk_manager r') = account_balance (risk_manager r) + realized (heap r' a) \<and>
     daily_pnl (risk_manager r') = daily_pnl (risk_manager r) + realized (heap r' a) \<and>
     pnl (heap r' a) = Some (realized (heap r' a)) \<and>
     (\<forall>b. b \<noteq> a \<longrightarrow> heap r' b = heap r b) \<and> robot_inv r'"
proof -
  from close_trade_active [OF inv act, of now price why] run
  have out: "out = Returned ()"
    and r': "r' = r\<lparr>heap := (heap r)(a := closed_trade (heap r a) price now why),
        risk_manager := apply_pnl (trade_pnl (heap r a) price) (risk_manager r),
        active_trades := remove1 a (active_trades r),
        trade_history := trade_history r @ [a]\<rparr>"
    by simp_all
  from inv act have dist: "distinct (active_trades r)" and nohist: "a \<notin> set (trade_history r)"
    by (auto simp: robot_inv_def)
  have gone: "a \<notin> set (active_trades r')"
    using dist by (simp add: r')
  have once: "count_list (trade_history r') a = 1"
    using nohist by (simp add: r' count_list_0_iff)
  have inv': "robot_inv r'"
    using inv run by (rule robot_inv_close)
  show ?thesis
    using out gone once inv'
    by (simp add: r' closed_trade_def trade_pnl_def apply_pnl_def realized_def)
qed

text \<open>
  The scenario of the specification: BUY, entry 1.1000, size 100, closed at 1.0940.
\<close>

theorem close_trade_bookkeeping_witness:
  "robot_inv scenario_b \<and> 0 \<in> set (active_trades scenario_b) \<and>
   fst (close_trade 5 scenario_b 0 (1094 / 1000) ''STOP_LOSS'') = Returned () \<and>
   pnl (heap (snd (close_trade 5 scenario_b 0 (1094 / 1000) ''STOP_LOSS'')) 0) = Some (- (6 / 10)) \<and>
   account_balance (risk_manager (snd (close_trade 5 scenario_b 0 (1094 / 1000) ''STOP_LOSS'')))
     = 10000 - 6 / 10 \<and>
   active_trades (snd (close_trade 5 scenario_b 0 (1094 / 1000) ''STOP_LOSS'')) = [] \<and>
   trade_history (snd (close_trade 5 scenario_b 0 (1094 / 1000) ''STOP_LOSS'')) = [0]"
proof -
  have inv: "robot_inv scenario_b"
    by (simp add: robot_inv_def scenario_b_def new_robot_def)
  have act: "0 \<in> set (active_trades scenario_b)"
    by (simp add: scenario_b_def)
  have run: "close_trade 5 scenario_b 0 (1094 / 1000) ''STOP_LOSS'' =
      (fst (close_trade 5 scenario_b 0 (1094 / 1000) ''STOP_LOSS''),
       snd (close_trade 5 scenario_b 0 (1094 / 1000) ''STOP_LOSS''))"
    by simp
  have buy: "signal_type (heap scenario_b 0) = ''BUY''"
    and entry: "entry_price (heap scenario_b 0) = 11 / 10"
    and psize: "position_size (heap scenario_b 0) = 100"
    and bal: "account_balance (risk_manager scenario_b) = 10000"
    and lists: "active_trades scenario_b = [0]" "trade_history scenario_b = []"
    by (simp_all add: scenario_b_def new_robot_def default_risk_manager_def RiskManager_def)
  from close_trade_bookkeeping [OF inv act run] inv act show ?thesis
    by (simp add: buy entry psize bal lists realized_def)
qed

section \<open>Monitoring\<close>

lemma monitor_decision_cases:
  "monitor_decision t p =
     (if p = 0 then None
      else if (signal_type t = ''BUY'' \<and> p \<le> stop_loss t) \<or>
              (signal_type t = ''SELL'' \<and> p \<ge> stop_loss t) then Some ''STOP_LOSS''
      else if (take_profit t \<noteq> None \<and> take_profit t \<noteq> Some 0 \<and>
                 ((signal_type t = ''BUY'' \<and> p \<ge> the (take_profit t)) \<or>
                  (signal_type t = ''SELL'' \<and> p \<le> the (take_profit t))))
        then Some ''TAKE_PROFIT''
      else None)"
  by (cases "take_profit t") (auto simp: monitor_decision_def)

lemma distinct_count_le_1: "distinct xs \<Longrightarrow> count_list xs x \<le> 1"
  by (induction xs) auto

text \<open>
  C6. One call of \<^verbatim>\<open>monitor_trades\<close> on a well-formed robot returns normally, and for
  the trade at position \<open>i\<close> of \<^verbatim>\<open>active_trades\<close>, with the price \<open>p\<close> fetched for it:
  if \<open>p\<close> is the sentinel 0 the trade is untouched and stays open; otherwise, if the
  stop-loss condition holds it is closed with reason STOP\_LOSS, whether or not the
  take-profit condition holds too; otherwise, if its take profit is set (neither
  \<^verbatim>\<open>None\<close> nor zero, the truth test of the code) and reached, it is closed with reason
  TAKE\_PROFIT; otherwise it is untouched and stays open. A trade is closed at most once
  per call: the history grows by the closed trades of the snapshot, each once, and the
  balance by their realized P/L, each once.
\<close>

theorem monitor_trades_priority:
  assumes inv: "robot_inv r" and run: "monitor_trades feed clock r = (out, r')"
    and i: "i < length (active_trades r)"
    and a: "a = active_trades r ! i" and t: "t = heap r a" and p: "p = feed i (symbol t)"
  shows "out = Returned () \<and>
    (p = 0 \<longrightarrow> heap r' a = t \<and> a \<in> set (active_trades r')) \<and>
    (p \<noteq> 0 \<and> ((signal_type t = ''BUY'' \<and> p \<le> stop_loss t) \<or>
               (signal_type t = ''SELL'' \<and> p \<ge> stop_loss t)) \<longrightarrow>
       status (heap r' a) = ''CLOSED'' \<and> close_reason (heap r' a) = Some ''STOP_LOSS'' \<and>
       exit_price (heap r' a) = Some p \<and>
       a \<notin> set (active_trades r') \<and> a \<in> set (trade_history r')) \<and>
    (p \<noteq> 0 \<and> \<not> ((signal_type t = ''BUY'' \<and> p \<le> stop_loss t) \<or>
                 (signal_type t = ''SELL'' \<and> p \<ge> stop_loss t)) \<and>
     (take_profit t \<noteq> None \<and> take_profit t \<noteq> Some 0 \<and>
        ((signal_type t = ''BUY'' \<and> p \<ge> the (take_profit t)) \<or>
         (signal_type t = ''SELL'' \<and> p \<le> the (take_profit t)))) \<longrightarrow>
       status (heap r' a) = ''CLOSED'' \<and> close_reason (heap r' a) = Some ''TAKE_PROFIT'' \<and>
       exit_price (heap r' a) = Some p \<and>
       a \<notin> set (active_trades r') \<and> a \<in> set (trade_history r')) \<and>
    (p \<noteq> 0 \<and> \<not> ((signal_type t = ''BUY'' \<and> p \<le> stop_loss t) \<or>
                 (signal_type t = ''SELL'' \<and> p \<ge> stop_loss t)) \<and>
     \<not> (take_profit t \<noteq> None \<and> take_profit t \<noteq> Some 0 \<and>
        ((signal_type t = ''BUY'' \<and> p \<ge> the (take_profit t)) \<or>
         (signal_type t = ''SELL'' \<and> p \<le> the (take_profit t)))) \<longrightarrow>
       heap r' a = t \<and> a \<in> set (active_trades r')) \<and>
    count_list (trade_history r') a \<le> 1 \<and>
    trade_history r' =
      trade_history r @ filter (\<lambda>b. status (heap r' b) \<noteq> ''OPEN'') (active_trades r) \<and>
    active_trades r' = filter (\<lambda>b. status (heap r' b) = ''OPEN'') (active_trades r) \<and>
    account_balance (risk_manager r') =
      account_balance (risk_manager r) +
        sum_list (map (\<lambda>b. realized (heap r' b))
          (filter (\<lambda>b. status (heap r' b) \<noteq> ''OPEN'') (active_trades r)))"
proof -
  let ?snap = "active_trades r"
  from inv have dist: "distinct ?snap" by (simp add: robot_inv_def)
  from run have loop: "monitor_loop feed clock 0 ?snap r = (out, r')"
    by (simp add: monitor_trades_def)
  note spec = monitor_loop_spec [OF inv dist subset_refl loop]
  from spec have out: "out = Returned ()" and inv': "robot_inv r'" by blast+
  from spec i a t p have heap_a: "heap r' a = monitored t p (clock i)" by simp
  from i a have mem: "a \<in> set ?snap" by simp
  with inv t have open_t: "status t = ''OPEN''"
    by (simp add: robot_inv_def list_all_iff)
  from spec have active: "active_trades r' = filter (\<lambda>b. status (heap r' b) = ''OPEN'') ?snap"
    by (auto intro: filter_cong)
  from spec have history: "trade_history r' =
      trade_history r @ filter (\<lambda>b. status (heap r' b) \<noteq> ''OPEN'') ?snap"
    by blast
  from spec have balance: "account_balance (risk_manager r') =
      account_balance (risk_manager r) +
        sum_list (map (\<lambda>b. realized (heap r' b))
          (filter (\<lambda>b. status (heap r' b) \<noteq> ''OPEN'') ?snap))"
    by (simp add: apply_pnl_def)
  have in_active: "a \<in> set (active_trades r') \<longleftrightarrow> status (heap r' a) = ''OPEN''"
    using mem by (simp add: active)
  have in_history: "status (heap r' a) \<noteq> ''OPEN'' \<Longrightarrow> a \<in> set (trade_history r')"
    using mem by (simp add: history)
  from inv' have "distinct (trade_history r')" by (simp add: robot_inv_def)
  then have once: "count_list (trade_history r') a \<le> 1"
    by (rule distinct_count_le_1)
  have skipped: "monitor_decision t p = None \<Longrightarrow> heap r' a = t \<and> a \<in> set (active_trades r')"
    by (simp add: in_active heap_a monitored_def open_t)
  have closed: "monitor_decision t p = Some why \<Longrightarrow>
       status (heap r' a) = ''CLOSED'' \<and> close_reason (heap r' a) = Some why \<and>
       exit_price (heap r' a) = Some p \<and>
       a \<notin> set (active_trades r') \<and> a \<in> set (trade_history r')" for why
    using in_history by (simp add: in_active heap_a monitored_def closed_trade_def)
  let ?stop = "(signal_type t = ''BUY'' \<and> p \<le> stop_loss t) \<or>
               (signal_type t = ''SELL'' \<and> p \<ge> stop_loss t)"
  let ?take = "take_profit t \<noteq> None \<and> take_profit t \<noteq> Some 0 \<and>
        ((signal_type t = ''BUY'' \<and> p \<ge> the (take_profit t)) \<or>
         (signal_type t = ''SELL'' \<and> p \<le> the (take_profit t)))"
  have unavailable: "p = 0 \<longrightarrow> heap r' a = t \<and> a \<in> set (active_trades r')"
    using skipped by (simp add: monitor_decision_cases)
  have stop_first: "p \<noteq> 0 \<and> ?stop \<longrightarrow>
       status (heap r' a) = ''CLOSED'' \<and> close_reason (heap r' a) = Some ''STOP_LOSS'' \<and>
       exit_price (heap r' a) = Some p \<and>
       a \<notin> set (active_trades r') \<and> a \<in> set (trade_history r')"
  proof
    assume "p \<noteq> 0 \<and> ?stop"
    then have "monitor_decision t p = Some ''STOP_LOSS''"
      by (simp add: monitor_decision_cases)
    then show "status (heap r' a) = ''CLOSED'' \<and> close_reason (heap r' a) = Some ''STOP_LOSS'' \<and>
       exit_price (heap r' a) = Some p \<and>
       a \<notin> set (active_trades r') \<and> a \<in> set (trade_history r')"
      by (rule closed)
  qed
  have take_next: "p \<noteq> 0 \<and> \<not> ?stop \<and> ?take \<longrightarrow>
       status (heap r' a) = ''CLOSED'' \<and> close_reason (heap r' a) = Some ''TAKE_PROFIT'' \<and>
       exit_price (heap r' a) = Some p \<and>
       a \<notin> set (active_trades r') \<and> a \<in> set (trade_history r')"
  proof
    assume "p \<noteq> 0 \<and> \<not> ?stop \<and> ?take"
    then have "monitor_decision t p = Some ''TAKE_PROFIT''"
      unfolding monitor_decision_cases by (simp only: if_True if_False simp_thms)
    then show "status (heap r' a) = ''CLOSED'' \<and> close_reason (heap r' a) = Some ''TAKE_PROFIT'' \<and>
       exit_price (heap r' a) = Some p \<and>
       a \<notin> set (active_trades r') \<and> a \<in> set (trade_history r')"
      by (rule closed)
  qed
  have left_open: "p \<noteq> 0 \<and> \<not> ?stop \<and> \<not> ?take \<longrightarrow>
       heap r' a = t \<and> a \<in> set (active_trades r')"
  proof
    assume "p \<noteq> 0 \<and> \<not> ?stop \<and> \<not> ?take"
    then have "monitor_decision t p = None"
      unfolding monitor_decision_cases by (simp only: if_True if_False simp_thms)
    then show "heap r' a = t \<and> a \<in> set (active_trades r')"
      by (rule skipped)
  qed
  from out unavailable stop_first take_next left_open once history active balance
  show ?thesis by (intro conjI)
qed

theorem monitor_trades_priority_witness:
  "robot_inv scenario_monitor \<and>
   fst (monitor_trades scenario_feed (\<lambda>k. k) scenario_monitor) = Returned () \<and>
   close_reason (heap (snd (monitor_trades scenario_feed (\<lambda>k. k) scenario_monitor)) 0)
     = Some ''STOP_LOSS'' \<and>
   heap (snd (monitor_trades scenario_feed (\<lambda>k. k) scenario_monitor)) 1
     = heap scenario_monitor 1 \<and>
   close_reason (heap (snd (monitor_trades scenario_feed (\<lambda>k. k) scenario_monitor)) 2)
     = Some ''TAKE_PROFIT'' \<and>
   active_trades (snd (monitor_trades scenario_feed (\<lambda>k. k) scenario_monitor)) = [1]"
proof -
  let ?r' = "snd (monitor_trades scenario_feed (\<lambda>k. k) scenario_monitor)"
  have inv: "robot_inv scenario_monitor"
    by (simp add: robot_inv_def scenario_monitor_def new_robot_def scenario_trade_def)
  have run: "monitor_trades scenario_feed (\<lambda>k. k) scenario_monitor =
      (fst (monitor_trades scenario_feed (\<lambda>k. k) scenario_monitor), ?r')"
    by simp
  have len: "0 < length (active_trades scenario_monitor)"
    "1 < length (active_trades scenario_monitor)" "2 < length (active_trades scenario_monitor)"
    by (simp_all add: scenario_monitor_def)
  have refs: "0 = active_trades scenario_monitor ! 0" "1 = active_trades scenario_monitor ! 1"
    "2 = active_trades scenario_monitor ! 2"
    by (simp_all add: scenario_monitor_def)
  have trades: "heap scenario_monitor 0 = scenario_trade ''BUY'' (12 / 10) (Some 1)"
    "heap scenario_monitor 1 = scenario_trade ''SELL'' (12 / 10) (Some 1)"
    "heap scenario_monitor 2 = scenario_trade ''BUY'' 1 (Some (12 / 10))"
    by (simp_all add: scenario_monitor_def)
  note fields = scenario_trade_def scenario_feed_def
  from monitor_trades_priority [OF inv run len(1) refs(1) refl refl]
  have first: "fst (monitor_trades scenario_feed (\<lambda>k. k) scenario_monitor) = Returned ()"
    "close_reason (heap ?r' 0) = Some ''STOP_LOSS''" "status (heap ?r' 0) = ''CLOSED''"
    by (simp_all add: trades fields)
  from monitor_trades_priority [OF inv run len(2) refs(2) refl refl]
  have second: "heap ?r' 1 = heap scenario_monitor 1"
    by (simp add: trades fields)
  from monitor_trades_priority [OF inv run len(3) refs(3) refl refl]
  have third: "close_reason (heap ?r' 2) = Some ''TAKE_PROFIT''" "status (heap ?r' 2) = ''CLOSED''"
    "active_trades ?r' = filter (\<lambda>b. status (heap ?r' b) = ''OPEN'') (active_trades scenario_monitor)"
    by (simp_all add: trades fields)
  have lists: "active_trades scenario_monitor = [0, 1, 2]"
    by (simp add: scenario_monitor_def)
  have still_open: "status (heap ?r' 1) = ''OPEN''"
    unfolding second trades by (simp add: scenario_trade_def)
  have "active_trades ?r' = [1]"
    unfolding third(3) lists by (simp add: first(3) still_open third(2) del: One_nat_def)
  with inv first second third show ?thesis by simp
qed

section \<open>Trade ids\<close>

text \<open>
  \<^verbatim>\<open>SimpleForexTradingRobot\<close> numbers a new trade with the count of all trades, open and
  closed, plus one. Closing moves a trade between the two lists and keeps the count, so
  on this robot the ids stay distinct, and a new id is above every earlier one, whatever
  calls are made.
\<close>

lemma close_trade_heap:
  "heap (snd (close_trade now r a price why)) =
     (heap r)(a := closed_trade (heap r a) price now why)"
  by (simp add: close_trade_def Let_def split: option.splits)

lemma close_trade_next_ref: "next_ref (snd (close_trade now r a price why)) = next_ref r"
  by (simp add: close_trade_def Let_def split: option.splits)

lemma close_trade_class: "robot_class (snd (close_trade now r a price why)) = robot_class r"
  by (simp add: close_trade_def Let_def split: option.splits)

lemma closed_trade_id [simp]: "trade_id (closed_trade t p n w) = trade_id t"
  by (simp add: closed_trade_def)

lemma unique_ids_new: "unique_ids (new_robot SimpleForexTradingRobot)"
  by (simp add: unique_ids_def robot_inv_new all_ids_def) (simp add: new_robot_def)

lemma unique_ids_execute:
  assumes u: "unique_ids r" and run: "execute_trade now sg r = (out, r')"
  shows "unique_ids r'"
proof -
  from u have inv: "robot_inv r" by (simp add: unique_ids_def)
  have inv': "robot_inv r'" using inv run by (rule robot_inv_execute)
  from u have fresh: "\<forall>b \<in> set (active_trades r @ trade_history r). b \<noteq> next_ref r"
    by (auto simp: unique_ids_def robot_inv_def list_all_iff)
  then have same: "map (\<lambda>a. trade_id (((heap r)(next_ref r := t)) a)) (active_trades r @ trade_history r)
      = map (\<lambda>a. trade_id (heap r a)) (active_trades r @ trade_history r)" for t
    by (intro map_cong) auto
  show ?thesis
  proof (cases "out = Returned True")
    case False
    with run have "r' = r"
      by (auto simp: execute_trade_def Let_def split: if_splits option.splits sum.splits)
    with u show ?thesis by simp
  next
    case True
    with run obtain t where r': "r' = r\<lparr>heap := (heap r)(next_ref r := t), next_ref := Suc (next_ref r),
           active_trades := active_trades r @ [next_ref r]\<rparr>"
      and id: "trade_id t = next_trade_id r"
      by (auto simp: execute_trade_def Let_def split: if_splits option.splits sum.splits)
    from u have cls: "robot_class r = SimpleForexTradingRobot" by (simp add: unique_ids_def)
    then have new: "trade_id t = length (all_ids r) + 1"
      by (simp add: id next_trade_id_def all_ids_def)
    have ids': "all_ids r' = map (\<lambda>a. trade_id (heap r a)) (active_trades r) @ [trade_id t]
          @ map (\<lambda>a. trade_id (heap r a)) (trade_history r)"
      using same [of t] by (simp add: all_ids_def r')
    from u have d: "distinct (all_ids r)"
      and b: "\<forall>i\<in>set (all_ids r). 1 \<le> i \<and> i \<le> length (all_ids r)"
      by (simp_all add: unique_ids_def list_all_iff)
    have old: "all_ids r = map (\<lambda>a. trade_id (heap r a)) (active_trades r)
          @ map (\<lambda>a. trade_id (heap r a)) (trade_history r)"
      by (simp add: all_ids_def)
    from b new have notin: "trade_id t \<notin> set (all_ids r)" by auto
    have len: "length (all_ids r') = length (all_ids r) + 1"
      unfolding ids' old by simp
    have elems: "set (all_ids r') = insert (trade_id t) (set (all_ids r))"
      unfolding ids' old by auto
    have "distinct (all_ids r')"
      using d notin unfolding ids' old by auto
    moreover have "\<forall>i\<in>set (all_ids r'). 1 \<le> i \<and> i \<le> length (all_ids r')"
      unfolding elems len using b new by auto
    ultimately show ?thesis using inv' cls by (simp add: unique_ids_def r' list_all_iff)
  qed
qed

lemma unique_ids_close:
  assumes u: "unique_ids r" and run: "close_trade now r a price why = (out, r')"
  shows "unique_ids r'"
proof -
  from u have inv: "robot_inv r" by (simp add: unique_ids_def)
  have inv': "robot_inv r'" using inv run by (rule robot_inv_close)
  from run have r': "r' = snd (close_trade now r a price why)" by simp
  have cls: "robot_class r' = robot_class r" unfolding r' by (rule close_trade_class)
  have ids: "trade_id (heap r' b) = trade_id (heap r b)" for b
    unfolding r' close_trade_heap by simp
  let ?f = "\<lambda>b. trade_id (heap r b)"
  let ?L = "active_trades r @ trade_history r"
  let ?L' = "active_trades r' @ trade_history r'"
  have new: "all_ids r' = map ?f ?L'"
    by (simp add: all_ids_def ids)
  have old: "all_ids r = map ?f ?L"
    by (simp add: all_ids_def)
  from u have d: "distinct (map ?f ?L)"
    and b: "\<forall>i\<in>set (map ?f ?L). 1 \<le> i \<and> i \<le> length ?L"
    by (simp_all add: unique_ids_def list_all_iff old)
  have moved: "distinct (map ?f ?L') \<and> set ?L' = set ?L \<and> length ?L' = length ?L"
  proof (cases "a \<in> set (active_trades r)")
    case False
    from close_trade_inactive [OF inv False, of now price why] run
    have "active_trades r' = active_trades r" "trade_history r' = trade_history r" by auto
    with d show ?thesis by simp
  next
    case True
    from close_trade_active [OF inv True, of now price why] run
    have l: "active_trades r' = remove1 a (active_trades r)" "trade_history r' = trade_history r @ [a]"
      by auto
    from True obtain ws zs where sp: "active_trades r = ws @ a # zs" "a \<notin> set ws"
      by (meson split_list_first)
    then have rm: "remove1 a (active_trades r) = ws @ zs" by (simp add: remove1_append)
    have L: "?L = ws @ a # zs @ trade_history r" by (simp add: sp)
    have L': "?L' = ws @ zs @ trade_history r @ [a]" by (simp add: l rm)
    from d show ?thesis unfolding L L' by auto
  qed
  then have "distinct (all_ids r')" by (simp add: new)
  moreover have "\<forall>i\<in>set (all_ids r'). 1 \<le> i \<and> i \<le> length (all_ids r')"
    using b moved unfolding new by (simp only: length_map set_map) 
  ultimately show ?thesis using u inv' cls by (simp add: unique_ids_def list_all_iff)
qed


lemma unique_ids_monitor_step:
  assumes "unique_ids r" shows "unique_ids (snd (monitor_step now p a r))"
proof (cases "monitor_decision (heap r a) p")
  case None
  with assms show ?thesis by (simp add: monitor_step_def)
next
  case (Some why)
  have "close_trade now r a p why = (fst (close_trade now r a p why), snd (close_trade now r a p why))"
    by simp
  with assms have "unique_ids (snd (close_trade now r a p why))"
    by (rule unique_ids_close)
  with Some show ?thesis by (simp add: monitor_step_def)
qed

lemma unique_ids_monitor_loop:
  "unique_ids r \<Longrightarrow> unique_ids (snd (monitor_loop feed clock k snap r))"
proof (induction snap arbitrary: r k)
  case Nil
  then show ?case by simp
next
  case (Cons a rest)
  let ?step = "monitor_step (clock k) (feed k (symbol (heap r a))) a r"
  from Cons.prems have u1: "unique_ids (snd ?step)"
    by (rule unique_ids_monitor_step)
  obtain out r1 where step: "?step = (out, r1)" by (cases ?step)
  with u1 have u: "unique_ids r1" by simp
  show ?case
  proof (cases out)
    case (Raised e)
    with step u show ?thesis by simp
  next
    case (Returned v)
    with step Cons.IH [OF u] show ?thesis by simp
  qed
qed

lemma unique_ids_apply_op:
  assumes u: "unique_ids r" shows "unique_ids (apply_op r op)"
proof (cases op)
  case (ExecuteTrade now sg)
  have "execute_trade now sg r = (fst (execute_trade now sg r), snd (execute_trade now sg r))"
    by simp
  with u have "unique_ids (snd (execute_trade now sg r))" by (rule unique_ids_execute)
  with ExecuteTrade show ?thesis by simp
next
  case (CloseTrade now a price why)
  have "close_trade now r a price why =
      (fst (close_trade now r a price why), snd (close_trade now r a price why))"
    by simp
  with u have "unique_ids (snd (close_trade now r a price why))" by (rule unique_ids_close)
  with CloseTrade show ?thesis by simp
next
  case (MonitorTrades feed clock)
  with u show ?thesis by (simp add: monitor_trades_def unique_ids_monitor_loop)
next
  case (ManualTrade now d)
  have "execute_trade now (manual_signal d) r =
      (fst (execute_trade now (manual_signal d) r), snd (execute_trade now (manual_signal d) r))"
    by simp
  with u have "unique_ids (snd (execute_trade now (manual_signal d) r))"
    by (rule unique_ids_execute)
  with u ManualTrade show ?thesis
    by (auto simp: manual_trade_def split: prod.splits outcome.splits bool.splits)
next
  case (CloseTradeManual now price_of wanted)
  show ?thesis
  proof (cases "find (\<lambda>a. trade_id (heap r a) = wanted) (active_trades r)")
    case None
    with u CloseTradeManual show ?thesis by (simp add: close_trade_manual_def)
  next
    case (Some a)
    let ?c = "close_trade now r a (price_of (symbol (heap r a))) ''MANUAL_CLOSE''"
    have "?c = (fst ?c, snd ?c)" by simp
    with u have "unique_ids (snd ?c)" by (rule unique_ids_close)
    with u Some CloseTradeManual show ?thesis
      by (auto simp: close_trade_manual_def Let_def split: prod.splits outcome.splits)
  qed
qed

lemma unique_ids_run: "unique_ids r \<Longrightarrow> unique_ids (run ops r)"
  unfolding run_def by (induction ops arbitrary: r) (simp_all add: unique_ids_apply_op)

lemma simple_robot_ids_distinct:
  "distinct (all_ids (run ops (new_robot SimpleForexTradingRobot)))"
  using unique_ids_run [OF unique_ids_new, of ops] by (simp add: unique_ids_def)

lemma simple_robot_next_id_greater:
  assumes r: "r = run ops (new_robot SimpleForexTradingRobot)"
    and run: "execute_trade now sg r = (Returned True, r')"
  shows "active_trades r' = active_trades r @ [next_ref r] \<and>
         trade_history r' = trade_history r \<and>
         (\<forall>i\<in>set (all_ids r). i < trade_id (heap r' (next_ref r)))"
proof -
  from r have u: "unique_ids r" by (simp add: unique_ids_run unique_ids_new)
  then have cls: "robot_class r = SimpleForexTradingRobot"
    and b: "\<forall>i\<in>set (all_ids r). i \<le> length (all_ids r)"
    by (simp_all add: unique_ids_def list_all_iff)
  from run cls have "active_trades r' = active_trades r @ [next_ref r]"
    "trade_history r' = trade_history r"
    "trade_id (heap r' (next_ref r)) = length (all_ids r) + 1"
    by (auto simp: execute_trade_def Let_def next_trade_id_def all_ids_def
        split: if_splits option.splits sum.splits)
  with b show ?thesis by (simp add: less_Suc_eq_le)
qed

lemma example_signal_executes:
  "risk_manager r = default_risk_manager \<Longrightarrow>
   execute_trade now (example_signal symb) r =
     (Returned True,
      r\<lparr>heap := (heap r)(next_ref r :=
           \<lparr>trade_id = next_trade_id r, symbol = symb, strategy = ''Trend Following'',
            signal_type = ''BUY'', entry_price = 1, stop_loss = 98 / 100,
            take_profit = Some (104 / 100), position_size = 1000,
            entry_time = now, status = ''OPEN'', exit_price = None,
            exit_time = None, pnl = None, close_reason = None\<rparr>),
        next_ref := Suc (next_ref r),
        active_trades := active_trades r @ [next_ref r]\<rparr>)"
  by (simp add: execute_trade_def example_signal_def validate_trade_def validate_trade_logged_def
      has_required_fields get_confidence_def calculate_position_size_def py_div_def bind_err_def
      default_risk_manager_def RiskManager_def Let_def)

text \<open>
  C1. \<^verbatim>\<open>ForexTradingRobot\<close> numbers a new trade with the count of closed trades plus
  one. Two signals executed one after the other on a fresh robot, with no close in
  between, both get the id 1; the same two calls on the simple robot give the ids 1, 2.
\<close>

theorem full_robot_repeats_trade_id:
  "active_trades (run [ExecuteTrade 1 (example_signal ''EURUSD=X''),
                       ExecuteTrade 2 (example_signal ''GBPUSD=X'')]
                   (new_robot ForexTradingRobot)) = [0, 1] \<and>
   all_ids (run [ExecuteTrade 1 (example_signal ''EURUSD=X''),
                 ExecuteTrade 2 (example_signal ''GBPUSD=X'')]
              (new_robot ForexTradingRobot)) = [1, 1] \<and>
   all_ids (run [ExecuteTrade 1 (example_signal ''EURUSD=X''),
                 ExecuteTrade 2 (example_signal ''GBPUSD=X'')]
              (new_robot SimpleForexTradingRobot)) = [1, 2]"
  by (simp add: run_def new_robot_def example_signal_executes all_ids_def next_trade_id_def)

section \<open>Trades without a take profit\<close>

lemma monitor_decision_falsy:
  "take_profit t = None \<or> take_profit t = Some 0 \<Longrightarrow>
     monitor_decision t p = None \<or> monitor_decision t p = Some ''STOP_LOSS''"
  by (auto simp: monitor_decision_def)

lemma monitor_decision_reason:
  "monitor_decision t p = Some why \<Longrightarrow> why = ''STOP_LOSS'' \<or> why = ''TAKE_PROFIT''"
  by (auto simp: monitor_decision_def split: if_splits)

lemma no_take_profit_close:
  assumes "no_take_profit r a" and "b \<noteq> a \<or> why = ''STOP_LOSS'' \<or> why = ''MANUAL_CLOSE''"
  shows "no_take_profit (snd (close_trade now r b price why)) a"
  using assms
  by (auto simp: no_take_profit_def close_trade_heap close_trade_next_ref closed_trade_def)

lemma no_take_profit_execute:
  assumes "no_take_profit r a"
  shows "no_take_profit (snd (execute_trade now sg r)) a"
  using assms
  by (auto simp: no_take_profit_def execute_trade_def Let_def split: option.splits sum.splits)

lemma no_take_profit_monitor_step:
  assumes "no_take_profit r a"
  shows "no_take_profit (snd (monitor_step now p b r)) a"
proof (cases "monitor_decision (heap r b) p")
  case None
  with assms show ?thesis by (simp add: monitor_step_def)
next
  case (Some why)
  have "b \<noteq> a \<or> why = ''STOP_LOSS'' \<or> why = ''MANUAL_CLOSE''"
  proof (cases "b = a")
    case True
    with assms have "take_profit (heap r b) = None \<or> take_profit (heap r b) = Some 0"
      by (simp add: no_take_profit_def)
    from monitor_decision_falsy [OF this, of p] Some show ?thesis by simp
  qed simp
  with assms have "no_take_profit (snd (close_trade now r b p why)) a"
    by (rule no_take_profit_close)
  with Some show ?thesis by (simp add: monitor_step_def)
qed

lemma no_take_profit_monitor_loop:
  "no_take_profit r a \<Longrightarrow> no_take_profit (snd (monitor_loop feed clock k snap r)) a"
proof (induction snap arbitrary: r k)
  case Nil
  then show ?case by simp
next
  case (Cons b rest)
  let ?step = "monitor_step (clock k) (feed k (symbol (heap r b))) b r"
  from Cons.prems have n1: "no_take_profit (snd ?step) a"
    by (rule no_take_profit_monitor_step)
  obtain out r1 where step: "?step = (out, r1)" by (cases ?step)
  with n1 have n: "no_take_profit r1 a" by simp
  show ?case
  proof (cases out)
    case (Raised e)
    with step n show ?thesis by simp
  next
    case (Returned v)
    with step Cons.IH [OF n] show ?thesis by simp
  qed
qed

lemma no_take_profit_apply_op:
  assumes n: "no_take_profit r a" and s: "service_op op"
  shows "no_take_profit (apply_op r op) a"
proof (cases op)
  case (ExecuteTrade now sg)
  with n show ?thesis by (simp add: no_take_profit_execute)
next
  case (CloseTrade now b price why)
  with s show ?thesis by simp
next
  case (MonitorTrades feed clock)
  with n show ?thesis by (simp add: monitor_trades_def no_take_profit_monitor_loop)
next
  case (ManualTrade now d)
  from n have "no_take_profit (snd (execute_trade now (manual_signal d) r)) a"
    by (rule no_take_profit_execute)
  with n ManualTrade show ?thesis
    by (auto simp: manual_trade_def split: prod.splits outcome.splits bool.splits)
next
  case (CloseTradeManual now price_of wanted)
  show ?thesis
  proof (cases "find (\<lambda>a. trade_id (heap r a) = wanted) (active_trades r)")
    case None
    with n CloseTradeManual show ?thesis by (simp add: close_trade_manual_def)
  next
    case (Some b)
    from n have "no_take_profit
        (snd (close_trade now r b (price_of (symbol (heap r b))) ''MANUAL_CLOSE'')) a"
      by (rule no_take_profit_close) simp
    with n Some CloseTradeManual show ?thesis
      by (auto simp: close_trade_manual_def Let_def split: prod.splits outcome.splits)
  qed
qed

lemma no_take_profit_run:
  "no_take_profit r a \<Longrightarrow> list_all service_op ops \<Longrightarrow> no_take_profit (run ops r) a"
  unfolding run_def by (induction ops arbitrary: r) (simp_all add: no_take_profit_apply_op)

lemma manual_trade_without_take_profit:
  assumes tp: "rq_take_profit d = None \<or> rq_take_profit d = Some 0"
    and ok: "manual_trade now d r = (200, r')"
  shows "no_take_profit r' (next_ref r) \<and> next_ref r \<in> set (active_trades r') \<and>
         take_profit (heap r' (next_ref r)) = None \<and> status (heap r' (next_ref r)) = ''OPEN''"
proof -
  from tp have none: "sg_take_profit (manual_signal d) = None"
    by (auto simp: manual_signal_def)
  from ok have ex: "execute_trade now (manual_signal d) r = (Returned True, r')"
    by (auto simp: manual_trade_def split: if_splits prod.splits outcome.splits bool.splits)
  then show ?thesis using none
    by (auto simp: execute_trade_def Let_def no_take_profit_def split: if_splits option.splits sum.splits)
qed

text \<open>
  C10. A trade whose take profit is \<^verbatim>\<open>None\<close> or exactly 0 never takes the TAKE\_PROFIT
  branch of \<^verbatim>\<open>monitor_trades\<close>, whatever the price: not in the decision for one trade,
  and not over a whole call with any price feed. A manual trade submitted without a take
  profit, or with 0, is opened with take profit \<^verbatim>\<open>None\<close>, and after any further calls of
  \<^verbatim>\<open>execute_trade\<close>, \<^verbatim>\<open>monitor_trades\<close> and the two manual routes it is still open or
  was closed with reason STOP\_LOSS or MANUAL\_CLOSE.
\<close>

theorem falsy_take_profit_never_closes:
  "(take_profit t = None \<or> take_profit t = Some 0 \<longrightarrow>
      monitor_decision t p \<noteq> Some ''TAKE_PROFIT'') \<and>
   ((take_profit (heap r a) = None \<or> take_profit (heap r a) = Some 0) \<and>
    close_reason (heap r a) = None \<and> a < next_ref r \<longrightarrow>
      close_reason (heap (snd (monitor_trades feed clock r)) a) \<noteq> Some ''TAKE_PROFIT'') \<and>
   ((rq_take_profit d = None \<or> rq_take_profit d = Some 0) \<and>
    manual_trade now d r0 = (200, r1) \<and> list_all service_op ops \<longrightarrow>
      next_ref r0 \<in> set (active_trades r1) \<and> take_profit (heap r1 (next_ref r0)) = None \<and>
      (close_reason (heap (run ops r1) (next_ref r0)) = None \<or>
       close_reason (heap (run ops r1) (next_ref r0)) = Some ''STOP_LOSS'' \<or>
       close_reason (heap (run ops r1) (next_ref r0)) = Some ''MANUAL_CLOSE''))"
proof -
  have decision: "take_profit t = None \<or> take_profit t = Some 0 \<longrightarrow>
      monitor_decision t p \<noteq> Some ''TAKE_PROFIT''"
  proof
    assume "take_profit t = None \<or> take_profit t = Some 0"
    from monitor_decision_falsy [OF this, of p]
    show "monitor_decision t p \<noteq> Some ''TAKE_PROFIT''" by auto
  qed
  have one_call: "(take_profit (heap r a) = None \<or> take_profit (heap r a) = Some 0) \<and>
    close_reason (heap r a) = None \<and> a < next_ref r \<longrightarrow>
      close_reason (heap (snd (monitor_trades feed clock r)) a) \<noteq> Some ''TAKE_PROFIT''"
  proof
    assume "(take_profit (heap r a) = None \<or> take_profit (heap r a) = Some 0) \<and>
      close_reason (heap r a) = None \<and> a < next_ref r"
    then have "no_take_profit r a" by (simp add: no_take_profit_def)
    then have "no_take_profit (snd (monitor_trades feed clock r)) a"
      by (simp add: monitor_trades_def no_take_profit_monitor_loop)
    then show "close_reason (heap (snd (monitor_trades feed clock r)) a) \<noteq> Some ''TAKE_PROFIT''"
      by (auto simp: no_take_profit_def)
  qed
  have manual: "(rq_take_profit d = None \<or> rq_take_profit d = Some 0) \<and>
    manual_trade now d r0 = (200, r1) \<and> list_all service_op ops \<longrightarrow>
      next_ref r0 \<in> set (active_trades r1) \<and> take_profit (heap r1 (next_ref r0)) = None \<and>
      (close_reason (heap (run ops r1) (next_ref r0)) = None \<or>
       close_reason (heap (run ops r1) (next_ref r0)) = Some ''STOP_LOSS'' \<or>
       close_reason (heap (run ops r1) (next_ref r0)) = Some ''MANUAL_CLOSE'')"
  proof
    assume h: "(rq_take_profit d = None \<or> rq_take_profit d = Some 0) \<and>
      manual_trade now d r0 = (200, r1) \<and> list_all service_op ops"
    then have tp: "rq_take_profit d = None \<or> rq_take_profit d = Some 0"
      and ok: "manual_trade now d r0 = (200, r1)" and ops: "list_all service_op ops"
      by blast+
    note m = manual_trade_without_take_profit [OF tp ok]
    from m have "no_take_profit r1 (next_ref r0)" by blast
    then have "no_take_profit (run ops r1) (next_ref r0)"
      using ops by (rule no_take_profit_run)
    with m show "next_ref r0 \<in> set (active_trades r1) \<and> take_profit (heap r1 (next_ref r0)) = None \<and>
      (close_reason (heap (run ops r1) (next_ref r0)) = None \<or>
       close_reason (heap (run ops r1) (next_ref r0)) = Some ''STOP_LOSS'' \<or>
       close_reason (heap (run ops r1) (next_ref r0)) = Some ''MANUAL_CLOSE'')"
      by (simp add: no_take_profit_def)
  qed
  from decision one_call manual show ?thesis by (intro conjI)
qed

theorem falsy_take_profit_never_closes_witness:
  "monitor_decision (scenario_trade ''BUY'' 1 None) 5 \<noteq> Some ''TAKE_PROFIT'' \<and>
   close_reason (heap (snd (monitor_trades (\<lambda>k s. 5) (\<lambda>k. k) scenario_zero)) 0)
     \<noteq> Some ''TAKE_PROFIT'' \<and>
   fst (manual_trade 3 manual_request (new_robot SimpleForexTradingRobot)) = 200 \<and>
   0 \<in> set (active_trades (snd (manual_trade 3 manual_request (new_robot SimpleForexTradingRobot)))) \<and>
   (close_reason (heap (run [MonitorTrades (\<lambda>k s. 5) (\<lambda>k. k), CloseTradeManual 9 (\<lambda>s. 5) 1]
        (snd (manual_trade 3 manual_request (new_robot SimpleForexTradingRobot)))) 0) = None \<or>
    close_reason (heap (run [MonitorTrades (\<lambda>k s. 5) (\<lambda>k. k), CloseTradeManual 9 (\<lambda>s. 5) 1]
        (snd (manual_trade 3 manual_request (new_robot SimpleForexTradingRobot)))) 0) = Some ''STOP_LOSS'' \<or>
    close_reason (heap (run [MonitorTrades (\<lambda>k s. 5) (\<lambda>k. k), CloseTradeManual 9 (\<lambda>s. 5) 1]
        (snd (manual_trade 3 manual_request (new_robot SimpleForexTradingRobot)))) 0) = Some ''MANUAL_CLOSE'')"
proof -
  let ?r = "new_robot SimpleForexTradingRobot"
  let ?ops = "[MonitorTrades (\<lambda>k s. 5) (\<lambda>k. k), CloseTradeManual 9 (\<lambda>s. 5) 1]"
  have t: "take_profit (scenario_trade ''BUY'' 1 None) = None \<or>
           take_profit (scenario_trade ''BUY'' 1 None) = Some 0"
    by (simp add: scenario_trade_def)
  have z: "(take_profit (heap scenario_zero 0) = None \<or> take_profit (heap scenario_zero 0) = Some 0) \<and>
      close_reason (heap scenario_zero 0) = None \<and> 0 < next_ref scenario_zero"
    by (simp add: scenario_zero_def scenario_trade_def)
  have status: "fst (manual_trade 3 manual_request ?r) = 200"
    by (simp add: manual_trade_def manual_request_def manual_signal_def execute_trade_def
        validate_trade_def validate_trade_logged_def has_required_fields get_confidence_def
        calculate_position_size_def py_div_def bind_err_def new_robot_def default_risk_manager_def RiskManager_def Let_def)
  then have ok: "manual_trade 3 manual_request ?r = (200, snd (manual_trade 3 manual_request ?r))"
    by (metis prod.collapse)
  have m: "(rq_take_profit manual_request = None \<or> rq_take_profit manual_request = Some 0) \<and>
      manual_trade 3 manual_request ?r = (200, snd (manual_trade 3 manual_request ?r)) \<and>
      list_all service_op ?ops"
    using ok by (simp add: manual_request_def)
  have ref: "next_ref ?r = 0" by (simp add: new_robot_def)
  from falsy_take_profit_never_closes
    [where t = "scenario_trade ''BUY'' 1 None" and p = 5 and r = scenario_zero and a = 0
       and feed = "\<lambda>k s. 5" and clock = "\<lambda>k. k" and d = manual_request and now = 3
       and ?r0.0 = ?r and ?r1.0 = "snd (manual_trade 3 manual_request ?r)" and ops = ?ops]
    t z m status
  show ?thesis unfolding ref by blast
qed

section \<open>Signals of the strategies\<close>

lemma length_price_changes [simp]: "length (price_changes xs) = length xs - 1"
  by (induction xs rule: price_changes.induct) simp_all

lemma length_rolling_mean [simp]: "length (rolling_mean w xs) = length xs"
  by (simp add: rolling_mean_def)

lemma length_rolling_std [simp]: "length (rolling_std w xs) = length xs"
  by (simp add: rolling_std_def)

lemma length_sma [simp]: "length (sma xs p) = length xs"
  by (simp add: sma_def)

lemma length_diff_series [simp]: "length (diff_series xs) = length xs"
  by (cases xs) (simp_all add: diff_series_def)

lemma length_rsi [simp]: "length (rsi xs p) = length xs"
  by (simp add: rsi_def Let_def where_or_zero_def)

lemma length_bollinger [simp]:
  "length (fst (bollinger_bands xs p k)) = length xs"
  "length (fst (snd (bollinger_bands xs p k))) = length xs"
  "length (snd (snd (bollinger_bands xs p k))) = length xs"
  by (simp_all add: bollinger_bands_def Let_def)

lemma iloc_from_end:
  "0 < k \<Longrightarrow> k \<le> length xs \<Longrightarrow> iloc xs (- int k) = Inr (xs ! (length xs - k))"
  by (simp add: iloc_def)

lemma iloc_last: "xs \<noteq> [] \<Longrightarrow> iloc xs (- 1) = Inr (xs ! (length xs - 1))"
  using iloc_from_end [of 1 xs] by (cases xs) simp_all

lemma iloc_prev: "2 \<le> length xs \<Longrightarrow> iloc xs (- 2) = Inr (xs ! (length xs - 2))"
  using iloc_from_end [of 2 xs] by simp

lemma bind_err_Inr [simp]: "bind_err (Inr v) f = f v"
  by (simp add: bind_err_def)

lemma bind_err_Inl [simp]: "bind_err (Inl e) f = Inl e"
  by (simp add: bind_err_def)

lemma trend_following_total: "\<exists>sg. trend_following mul data = Inr sg"
proof (cases "length data < 30")
  case True
  then show ?thesis by (simp add: trend_following_def)
next
  case False
  then have "map Close data \<noteq> []" "sma (map Close data) 10 \<noteq> []" "sma (map Close data) 30 \<noteq> []"
    "2 \<le> length (sma (map Close data) 10)" "2 \<le> length (sma (map Close data) 30)"
    by (auto simp: length_0_conv [symmetric] simp del: length_0_conv)
  then show ?thesis
    using False by (simp add: trend_following_def Let_def iloc_last iloc_prev)
qed


lemma mean_reversion_total: "\<exists>sg. mean_reversion mul data = Inr sg"
proof (cases "length data < max 14 20")
  case True
  then show ?thesis by (simp add: mean_reversion_def)
next
  case False
  let ?c = "map Close data"
  from False have "?c \<noteq> []" "rsi ?c 14 \<noteq> []" "fst (bollinger_bands ?c 20 2) \<noteq> []"
    "fst (snd (bollinger_bands ?c 20 2)) \<noteq> []" "snd (snd (bollinger_bands ?c 20 2)) \<noteq> []"
    by (auto simp: length_0_conv [symmetric] simp del: length_0_conv)
  then show ?thesis
    using False by (simp add: mean_reversion_def Let_def iloc_last)
qed

lemma breakout_total: "\<exists>sg. breakout mul data = Inr sg"
proof (cases "length data < 20")
  case True
  then show ?thesis by (simp add: breakout_def)
next
  case False
  then have "map Close data \<noteq> []" by auto
  then show ?thesis
    using False
    by (simp add: breakout_def Let_def iloc_last split: npfloat.splits)
qed

lemma generate_signal_total: "\<exists>sg. generate_signal mul s data = Inr sg"
  by (cases s) (simp_all add: generate_signal_def trend_following_total mean_reversion_total
      breakout_total)

lemma generate_signal_short:
  "length data < min_lookback s \<Longrightarrow>
     generate_signal mul s data = Inr (hold ''Insufficient data'')"
  by (cases s) (simp_all add: generate_signal_def min_lookback_def trend_following_def
      mean_reversion_def breakout_def)

lemma iloc_member: "iloc xs i = Inr v \<Longrightarrow> v \<in> set xs"
  by (auto simp: iloc_def split: if_splits)

lemma last_close_positive:
  "positive_prices data \<Longrightarrow> iloc (map Close data) i = Inr c \<Longrightarrow> 0 < c"
  by (auto simp: positive_prices_def list_all_iff dest!: iloc_member)

lemma fold_max_member: "fold max rest (x::real) \<in> set (x # rest)"
  by (induction rest arbitrary: x) (auto simp: max_def)

lemma fold_min_member: "fold min rest (x::real) \<in> set (x # rest)"
  by (induction rest arbitrary: x) (auto simp: min_def)

lemma series_max_member: "series_max xs = Fin r \<Longrightarrow> r \<in> set xs"
  using fold_max_member by (cases xs) (auto simp: series_max_def)

lemma series_min_member: "series_min xs = Fin r \<Longrightarrow> r \<in> set xs"
  using fold_min_member by (cases xs) (auto simp: series_min_def)

lemma set_slice_last: "set (slice_last n xs) \<subseteq> set xs"
  by (auto simp: slice_last_def dest: in_set_dropD)

lemma last_close_representable:
  "float_closes mul data \<Longrightarrow> iloc (map Close data) i = Inr c \<Longrightarrow> mul c 1 = c"
  by (auto simp: float_closes_def representable_def list_all_iff dest!: iloc_member)

lemma stop_placed_hold [simp]: "stop_placed mul s (hold why)"
  by (auto simp: stop_placed_def)

lemma stop_placed_buy:
  assumes "0 < entry" and "stop \<le> entry"
    and "stop = entry \<Longrightarrow>
      (s = TrendFollowingStrategy \<and> mul entry (98 / 100) = entry) \<or>
      (s = MeanReversionStrategy \<and> mul entry (97 / 100) = entry)"
  shows "stop_placed mul s (trade_signal ''BUY'' conf why entry stop target)"
  unfolding stop_placed_def using assms by blast

lemma stop_placed_sell:
  assumes "0 < entry" and "entry \<le> stop"
    and "stop = entry \<Longrightarrow>
      (s = TrendFollowingStrategy \<and> mul entry (102 / 100) = entry) \<or>
      (s = MeanReversionStrategy \<and> mul entry (103 / 100) = entry)"
  shows "stop_placed mul s (trade_signal ''SELL'' conf why entry stop target)"
  unfolding stop_placed_def using assms by blast

text \<open>
  A positive double times a factor below 1 is at most that double, and times a factor
  above 1 at least that double.
\<close>

lemma product_below:
  assumes "monotone_product mul" and "0 < c" and "mul c 1 = c" and "k \<le> 1"
  shows "mul c k \<le> c"
proof -
  from assms(1,2,4) have "mul c k \<le> mul c 1" unfolding monotone_product_def by blast
  with assms(3) show ?thesis by simp
qed

lemma product_above:
  assumes "monotone_product mul" and "0 < c" and "mul c 1 = c" and "1 \<le> k"
  shows "c \<le> mul c k"
proof -
  from assms(1,2,4) have "mul c 1 \<le> mul c k" unfolding monotone_product_def by blast
  with assms(3) show ?thesis by simp
qed

lemma trend_following_placed:
  assumes mono: "monotone_product mul" and pos: "positive_prices data"
    and fl: "float_closes mul data" and sg: "trend_following mul data = Inr sg"
  shows "stop_placed mul TrendFollowingStrategy sg"
proof (cases "length data < 30")
  case True
  with sg show ?thesis by (auto simp: trend_following_def)
next
  case False
  let ?c = "map Close data"
  from False have ne: "?c \<noteq> []" by auto
  then obtain c where c: "iloc ?c (- 1) = Inr c" by (simp add: iloc_last)
  with pos have cpos: "0 < c" by (rule last_close_positive)
  from fl c have one: "mul c 1 = c" by (rule last_close_representable)
  have buy: "stop_placed mul TrendFollowingStrategy
      (trade_signal ''BUY'' conf why c (mul c (98 / 100)) target)" for conf why target
    using product_below [OF mono cpos one, of "98 / 100"] cpos
    by (intro stop_placed_buy) simp_all
  have sell: "stop_placed mul TrendFollowingStrategy
      (trade_signal ''SELL'' conf why c (mul c (102 / 100)) target)" for conf why target
    using product_above [OF mono cpos one, of "102 / 100"] cpos
    by (intro stop_placed_sell) simp_all
  from False have "sma ?c 10 \<noteq> []" "sma ?c 30 \<noteq> []"
    "2 \<le> length (sma ?c 10)" "2 \<le> length (sma ?c 30)"
    by (auto simp: length_0_conv [symmetric] simp del: length_0_conv)
  then show ?thesis
    using sg False c buy sell
    by (auto simp: trend_following_def Let_def iloc_last iloc_prev split: if_splits)
qed

lemma mean_reversion_placed:
  assumes mono: "monotone_product mul" and pos: "positive_prices data"
    and fl: "float_closes mul data" and sg: "mean_reversion mul data = Inr sg"
  shows "stop_placed mul MeanReversionStrategy sg"
proof (cases "length data < max 14 20")
  case True
  with sg show ?thesis by (auto simp: mean_reversion_def)
next
  case False
  let ?c = "map Close data"
  from False have ne: "?c \<noteq> []" by auto
  then obtain c where c: "iloc ?c (- 1) = Inr c" by (simp add: iloc_last)
  with pos have cpos: "0 < c" by (rule last_close_positive)
  from fl c have one: "mul c 1 = c" by (rule last_close_representable)
  have buy: "stop_placed mul MeanReversionStrategy
      (trade_signal ''BUY'' conf why c (mul c (97 / 100)) target)" for conf why target
    using product_below [OF mono cpos one, of "97 / 100"] cpos
    by (intro stop_placed_buy) simp_all
  have sell: "stop_placed mul MeanReversionStrategy
      (trade_signal ''SELL'' conf why c (mul c (103 / 100)) target)" for conf why target
    using product_above [OF mono cpos one, of "103 / 100"] cpos
    by (intro stop_placed_sell) simp_all
  from False have "rsi ?c 14 \<noteq> []" "fst (bollinger_bands ?c 20 2) \<noteq> []"
    "fst (snd (bollinger_bands ?c 20 2)) \<noteq> []" "snd (snd (bollinger_bands ?c 20 2)) \<noteq> []"
    by (auto simp: length_0_conv [symmetric] simp del: length_0_conv)
  then show ?thesis
    using sg False c buy sell
    by (auto simp: mean_reversion_def Let_def iloc_last split: if_splits)
qed

text \<open>
  \<^verbatim>\<open>BreakoutStrategy\<close> compares the close with one product of a level and places the stop
  at another product of the same level, on the far side: the stop is never the entry.
\<close>

lemma breakout_placed:
  assumes mono: "monotone_product mul" and pos: "positive_prices data"
    and sg: "breakout mul data = Inr sg"
  shows "stop_placed mul BreakoutStrategy sg"
proof (cases "length data < 20")
  case True
  with sg show ?thesis by (auto simp: breakout_def)
next
  case False
  let ?recent = "slice_last 20 data"
  from False have ne: "map Close data \<noteq> []" by auto
  then obtain c where c: "iloc (map Close data) (- 1) = Inr c" by (simp add: iloc_last)
  with pos have cpos: "0 < c" by (rule last_close_positive)
  show ?thesis
  proof (cases "\<exists>res sup. series_max (map High ?recent) = Fin res \<and>
                          series_min (map Low ?recent) = Fin sup")
    case False
    with sg \<open>\<not> length data < 20\<close> c show ?thesis
      by (auto simp: breakout_def Let_def split: npfloat.splits)
  next
    case True
    then obtain res sup where res: "series_max (map High ?recent) = Fin res"
      and sup: "series_min (map Low ?recent) = Fin sup" by blast
    from series_max_member [OF res] set_slice_last [of 20 data] pos
    have respos: "0 < res" by (auto simp: positive_prices_def list_all_iff)
    from series_min_member [OF sup] set_slice_last [of 20 data] pos
    have suppos: "0 < sup" by (auto simp: positive_prices_def list_all_iff)
    from mono respos have "mul res (999 / 1000) \<le> mul res (1001 / 1000)"
      unfolding monotone_product_def by simp
    then have buy: "stop_placed mul BreakoutStrategy
        (trade_signal ''BUY'' conf why c (mul res (999 / 1000)) target)"
      if "mul res (1001 / 1000) < c" for conf why target
      using that cpos by (intro stop_placed_buy) simp_all
    from mono suppos have "mul sup (999 / 1000) \<le> mul sup (1001 / 1000)"
      unfolding monotone_product_def by simp
    then have sell: "stop_placed mul BreakoutStrategy
        (trade_signal ''SELL'' conf why c (mul sup (1001 / 1000)) target)"
      if "c < mul sup (999 / 1000)" for conf why target
      using that cpos by (intro stop_placed_sell) simp_all
    from sg \<open>\<not> length data < 20\<close> c res sup buy sell show ?thesis
      by (auto simp: breakout_def Let_def split: if_splits)
  qed
qed

lemma generate_signal_placed:
  "monotone_product mul \<Longrightarrow> positive_prices data \<Longrightarrow> float_closes mul data \<Longrightarrow>
     generate_signal mul s data = Inr sg \<Longrightarrow> stop_placed mul s sg"
  by (cases s) (simp_all add: generate_signal_def trend_following_placed mean_reversion_placed
      breakout_placed)

lemma rolling_mean_nth:
  "i < length xs \<Longrightarrow>
   rolling_mean w xs ! i =
     (if w = 0 \<or> i + 1 < w then NaN else Fin (sum_list (window w xs i) / real w))"
  by (simp add: rolling_mean_def)

lemma close_flat_bars [simp]: "map Close (map flat_bar xs) = xs"
  by (induction xs) (simp_all add: flat_bar_def)

lemma positive_flat_bars [simp]: "positive_prices (map flat_bar xs) = list_all (\<lambda>x. 0 < x) xs"
  by (induction xs) (simp_all add: positive_prices_def flat_bar_def)

lemma float_flat_bars [simp]:
  "float_closes mul (map flat_bar xs) = list_all (representable mul) xs"
  by (induction xs) (simp_all add: float_closes_def flat_bar_def)

text \<open>
  The moving averages of \<^verbatim>\<open>TrendFollowingStrategy\<close> at the last two rows of a series of
  \<open>n\<close> closes at one level followed by one other close.
\<close>

lemma window_step:
  assumes "w \<le> n" and "0 < w"
  shows "window w (replicate n a @ [c]) n = replicate (w - 1) a @ [c]"
    and "window w (replicate n a @ [c]) (n - 1) = replicate w a"
  using assms by (simp_all add: window_def min_def)

lemma sma_step:
  assumes "w \<le> n" and "0 < w"
  shows "iloc (sma (replicate n a @ [c]) w) (- 1) = Inr (Fin ((real (w - 1) * a + c) / real w))"
    and "iloc (sma (replicate n a @ [c]) w) (- 2) = Inr (Fin (real w * a / real w))"
proof -
  let ?xs = "replicate n a @ [c]"
  have len: "length (sma ?xs w) = n + 1" by simp
  then have ne: "sma ?xs w \<noteq> []" by (metis add_is_0 length_0_conv zero_neq_one)
  have last: "sma ?xs w ! n = Fin ((real (w - 1) * a + c) / real w)"
    using assms
    by (simp add: sma_def rolling_mean_nth window_step sum_list_replicate)
  from assms have n: "n - 1 < length ?xs" "\<not> (w = 0 \<or> n - 1 + 1 < w)" by simp_all
  have w: "window w ?xs (n - 1) = replicate w a"
    using assms by (rule window_step(2))
  have prev: "sma ?xs w ! (n - 1) = Fin (real w * a / real w)"
    unfolding sma_def rolling_mean_nth [OF n(1)] w using n(2)
    by (simp add: sum_list_replicate)
  from iloc_last [OF ne] last show "iloc (sma ?xs w) (- 1) = Inr (Fin ((real (w - 1) * a + c) / real w))"
    by (simp only: len add_diff_cancel_right')
  from assms have "2 \<le> length (sma ?xs w)" by simp
  from iloc_prev [OF this] prev
  show "iloc (sma ?xs w) (- 2) = Inr (Fin (real w * a / real w))"
    by (simp only: len) simp
qed

lemma trend_following_rise:
  assumes "a < c"
  shows "trend_following mul (map flat_bar (replicate 30 a @ [c])) =
     Inr (trade_signal ''BUY'' (7 / 10) (Plain ''Golden cross detected'') c (mul c (98 / 100))
            (Some (mul c (104 / 100))))"
proof -
  have last: "iloc (replicate 30 a @ [c]) (- 1) = Inr c"
    using iloc_last [of "replicate 30 a @ [c]"] by (simp add: nth_append)
  show ?thesis
    using assms
    by (simp add: trend_following_def Let_def flat_bar_def sma_step last fle_def fgt_def)
qed

lemma trend_following_fall:
  assumes "c < a"
  shows "trend_following mul (map flat_bar (replicate 30 a @ [c])) =
     Inr (trade_signal ''SELL'' (7 / 10) (Plain ''Death cross detected'') c (mul c (102 / 100))
            (Some (mul c (96 / 100))))"
proof -
  have last: "iloc (replicate 30 a @ [c]) (- 1) = Inr c"
    using iloc_last [of "replicate 30 a @ [c]"] by (simp add: nth_append)
  show ?thesis
    using assms
    by (simp add: trend_following_def Let_def flat_bar_def sma_step last fle_def fge_def
        fgt_def)
qed

text \<open>Rounding to the multiples of \<^verbatim>\<open>2**-1074\<close> keeps the order and leaves a multiple as it is.\<close>

lemma round_even_mono: "x \<le> y \<Longrightarrow> round_even x \<le> round_even y"
proof -
  assume xy: "x \<le> y"
  then have f: "\<lfloor>x\<rfloor> \<le> \<lfloor>y\<rfloor>" by (rule floor_mono)
  have ux: "round_even x \<le> \<lfloor>x\<rfloor> + 1" by (simp add: round_even_def Let_def)
  have ly: "\<lfloor>y\<rfloor> \<le> round_even y" by (simp add: round_even_def Let_def)
  show ?thesis
  proof (cases "\<lfloor>x\<rfloor> < \<lfloor>y\<rfloor>")
    case True
    with ux ly show ?thesis by linarith
  next
    case False
    with f have eq: "\<lfloor>x\<rfloor> = \<lfloor>y\<rfloor>" by simp
    with xy show ?thesis by (auto simp: round_even_def Let_def)
  qed
qed

lemma round_even_int: "round_even (of_int n) = n"
  by (simp add: round_even_def)

lemma monotone_subnormal_product: "monotone_product subnormal_product"
  unfolding monotone_product_def subnormal_product_def
proof (intro allI impI)
  fix x a b :: real
  assume h: "0 < x \<and> a \<le> b"
  then have "x * a * 2 ^ 1074 \<le> x * b * 2 ^ 1074" by (simp add: mult_left_mono)
  then have "round_even (x * a * 2 ^ 1074) \<le> round_even (x * b * 2 ^ 1074)"
    by (rule round_even_mono)
  then show "real_of_int (round_even (x * a * 2 ^ 1074)) / 2 ^ 1074
      \<le> real_of_int (round_even (x * b * 2 ^ 1074)) / 2 ^ 1074"
    by (simp add: divide_right_mono)
qed

lemma monotone_exact_product: "monotone_product (*)"
  by (simp add: monotone_product_def mult_left_mono)

lemma representable_multiple: "representable subnormal_product (of_int n / 2 ^ 1074)"
  by (simp add: representable_def subnormal_product_def round_even_int)

lemma representable_subnormal:
  "representable subnormal_product 1" "representable subnormal_product smallest_double"
  using representable_multiple [of "2 ^ 1074"] representable_multiple [of 1]
  by (simp_all add: smallest_double_def)

lemma subnormal_product_collapses:
  "subnormal_product smallest_double (102 / 100) = smallest_double"
  "subnormal_product smallest_double (96 / 100) = smallest_double"
  by (simp_all add: subnormal_product_def smallest_double_def round_even_def Let_def)

lemma smallest_double_positive: "0 < smallest_double" "smallest_double < 1"
  by (simp_all add: smallest_double_def)

lemma trend_following_subnormal:
  "generate_signal subnormal_product TrendFollowingStrategy subnormal_cross_data =
     Inr (trade_signal ''SELL'' (7 / 10) (Plain ''Death cross detected'') smallest_double
            smallest_double (Some smallest_double))"
  by (simp only: generate_signal_def subnormal_cross_data_def strategy.case
      trend_following_fall [OF smallest_double_positive(2)] subnormal_product_collapses)

lemma stop_placed_fields:
  assumes "stop_placed mul s sg"
  shows "(sg_signal sg = Some ''BUY'' \<longrightarrow>
            (\<exists>entry stop. sg_entry_price sg = Some entry \<and> sg_stop_loss sg = Some stop \<and>
               stop \<le> entry \<and>
               (stop = entry \<longrightarrow>
                  (s = TrendFollowingStrategy \<and> mul entry (98 / 100) = entry) \<or>
                  (s = MeanReversionStrategy \<and> mul entry (97 / 100) = entry)))) \<and>
         (sg_signal sg = Some ''SELL'' \<longrightarrow>
            (\<exists>entry stop. sg_entry_price sg = Some entry \<and> sg_stop_loss sg = Some stop \<and>
               entry \<le> stop \<and>
               (stop = entry \<longrightarrow>
                  (s = TrendFollowingStrategy \<and> mul entry (102 / 100) = entry) \<or>
                  (s = MeanReversionStrategy \<and> mul entry (103 / 100) = entry)))) \<and>
         (sg_signal sg \<noteq> Some ''HOLD'' \<longrightarrow>
            sg_entry_price sg \<noteq> None \<and> sg_stop_loss sg \<noteq> None) \<and>
         (sg_signal sg = Some ''BUY'' \<or> sg_signal sg = Some ''SELL'' \<or>
          sg_signal sg = Some ''HOLD'')"
  using assms by (auto simp: stop_placed_def hold_def trade_signal_def)

text \<open>
  C8. \<^verbatim>\<open>generate_signal\<close> of each of the three strategies returns a signal for every
  price series, with no error; for a series shorter than the strategy's minimum
  lookback (30 rows for TrendFollowing, max(14, 20) for MeanReversion, 20 for Breakout)
  the signal is HOLD with confidence 0, the reason ``Insufficient data'' and no entry,
  stop or take-profit key. This holds whatever the multiplication is.
\<close>

theorem generate_signal_never_fails:
  "(\<exists>sg. generate_signal mul s data = Inr sg) \<and>
   (length data < min_lookback s \<longrightarrow>
      generate_signal mul s data =
        Inr \<lparr>sg_signal = Some ''HOLD'', sg_confidence = Some 0,
             sg_reason = Some (Plain ''Insufficient data''), sg_entry_price = None,
             sg_stop_loss = None, sg_take_profit = None, sg_strategy = None,
             sg_symbol = None, sg_timestamp = None\<rparr>) \<and>
   min_lookback TrendFollowingStrategy = 30 \<and>
   min_lookback MeanReversionStrategy = max 14 20 \<and>
   min_lookback BreakoutStrategy = 20"
proof -
  have short: "length data < min_lookback s \<longrightarrow>
      generate_signal mul s data =
        Inr \<lparr>sg_signal = Some ''HOLD'', sg_confidence = Some 0,
             sg_reason = Some (Plain ''Insufficient data''), sg_entry_price = None,
             sg_stop_loss = None, sg_take_profit = None, sg_strategy = None,
             sg_symbol = None, sg_timestamp = None\<rparr>"
    using generate_signal_short [of data s mul] by (simp add: hold_def)
  have "min_lookback TrendFollowingStrategy = 30" "min_lookback MeanReversionStrategy = max 14 20"
    "min_lookback BreakoutStrategy = 20"
    by (simp_all add: min_lookback_def)
  with generate_signal_total [of mul s data] short show ?thesis by (intro conjI)
qed

theorem generate_signal_never_fails_witness:
  "generate_signal (*) TrendFollowingStrategy (map flat_bar (replicate 29 1)) =
     Inr \<lparr>sg_signal = Some ''HOLD'', sg_confidence = Some 0,
          sg_reason = Some (Plain ''Insufficient data''), sg_entry_price = None,
          sg_stop_loss = None, sg_take_profit = None, sg_strategy = None,
          sg_symbol = None, sg_timestamp = None\<rparr> \<and>
   generate_signal (*) MeanReversionStrategy (map flat_bar (replicate 19 1)) =
     Inr \<lparr>sg_signal = Some ''HOLD'', sg_confidence = Some 0,
          sg_reason = Some (Plain ''Insufficient data''), sg_entry_price = None,
          sg_stop_loss = None, sg_take_profit = None, sg_strategy = None,
          sg_symbol = None, sg_timestamp = None\<rparr> \<and>
   generate_signal subnormal_product BreakoutStrategy [] =
     Inr \<lparr>sg_signal = Some ''HOLD'', sg_confidence = Some 0,
          sg_reason = Some (Plain ''Insufficient data''), sg_entry_price = None,
          sg_stop_loss = None, sg_take_profit = None, sg_strategy = None,
          sg_symbol = None, sg_timestamp = None\<rparr>"
  using
    generate_signal_never_fails [of "(*)" TrendFollowingStrategy "map flat_bar (replicate 29 1)"]
    generate_signal_never_fails [of "(*)" MeanReversionStrategy "map flat_bar (replicate 19 1)"]
    generate_signal_never_fails [of subnormal_product BreakoutStrategy "[]"]
  by simp

text \<open>
  C5 (as amended). Let the multiplication keep the order of the factors, as the rounded
  product of doubles does, and let the prices be strictly positive and the closes
  doubles. Then a BUY signal of any of the three strategies has its stop loss at or
  below its entry price and a SELL signal has it at or above. The stop loss is the
  entry price only in a signal of \<^verbatim>\<open>TrendFollowingStrategy\<close> or \<^verbatim>\<open>MeanReversionStrategy\<close>
  for which the product of the close with the strategy's factor (0.98 or 0.97 for a
  BUY, 1.02 or 1.03 for a SELL) is the close again; a \<^verbatim>\<open>BreakoutStrategy\<close> signal always
  has its stop strictly on the losing side. Every signal is a BUY, a SELL or a HOLD, and
  the first two carry both prices.
\<close>

theorem signals_stop_on_losing_side:
  assumes "monotone_product mul" and "positive_prices data" and "float_closes mul data"
    and "generate_signal mul s data = Inr sg"
  shows "(sg_signal sg = Some ''BUY'' \<longrightarrow>
            (\<exists>entry stop. sg_entry_price sg = Some entry \<and> sg_stop_loss sg = Some stop \<and>
               stop \<le> entry \<and>
               (stop = entry \<longrightarrow>
                  (s = TrendFollowingStrategy \<and> mul entry (98 / 100) = entry) \<or>
                  (s = MeanReversionStrategy \<and> mul entry (97 / 100) = entry)))) \<and>
         (sg_signal sg = Some ''SELL'' \<longrightarrow>
            (\<exists>entry stop. sg_entry_price sg = Some entry \<and> sg_stop_loss sg = Some stop \<and>
               entry \<le> stop \<and>
               (stop = entry \<longrightarrow>
                  (s = TrendFollowingStrategy \<and> mul entry (102 / 100) = entry) \<or>
                  (s = MeanReversionStrategy \<and> mul entry (103 / 100) = entry)))) \<and>
         (sg_signal sg \<noteq> Some ''HOLD'' \<longrightarrow>
            sg_entry_price sg \<noteq> None \<and> sg_stop_loss sg \<noteq> None) \<and>
         (sg_signal sg = Some ''BUY'' \<or> sg_signal sg = Some ''SELL'' \<or>
          sg_signal sg = Some ''HOLD'')"
  using assms by (intro stop_placed_fields generate_signal_placed)

text \<open>
  With the exact product on a rising and on a falling series, where the stops are
  strictly apart from the entries, and with the product of subnormal doubles on the
  series that ends at the smallest positive double, where the stop is the entry.
\<close>

theorem signals_stop_on_losing_side_witness:
  "monotone_product (*) \<and> monotone_product subnormal_product \<and>
   positive_prices golden_cross_data \<and> float_closes (*) golden_cross_data \<and>
   positive_prices death_cross_data \<and> float_closes (*) death_cross_data \<and>
   positive_prices subnormal_cross_data \<and> float_closes subnormal_product subnormal_cross_data \<and>
   generate_signal (*) TrendFollowingStrategy golden_cross_data =
     Inr (trade_signal ''BUY'' (7 / 10) (Plain ''Golden cross detected'') 2 (196 / 100)
            (Some (208 / 100))) \<and>
   generate_signal (*) TrendFollowingStrategy death_cross_data =
     Inr (trade_signal ''SELL'' (7 / 10) (Plain ''Death cross detected'') 1 (102 / 100)
            (Some (96 / 100))) \<and>
   generate_signal subnormal_product TrendFollowingStrategy subnormal_cross_data =
     Inr (trade_signal ''SELL'' (7 / 10) (Plain ''Death cross detected'') smallest_double
            smallest_double (Some smallest_double)) \<and>
   (196 / 100 :: real) \<le> 2 \<and> (1 :: real) \<le> 102 / 100 \<and> smallest_double \<le> smallest_double \<and>
   subnormal_product smallest_double (102 / 100) = smallest_double"
proof -
  have pos: "positive_prices golden_cross_data" "positive_prices death_cross_data"
    "positive_prices subnormal_cross_data"
    unfolding golden_cross_data_def death_cross_data_def subnormal_cross_data_def
      positive_flat_bars
    by (simp_all add: list_all_iff smallest_double_positive)
  have fl: "float_closes (*) golden_cross_data" "float_closes (*) death_cross_data"
    "float_closes subnormal_product subnormal_cross_data"
    unfolding golden_cross_data_def death_cross_data_def subnormal_cross_data_def
      float_flat_bars
    by (simp_all add: list_all_iff representable_def representable_subnormal [unfolded representable_def])
  have buy: "generate_signal (*) TrendFollowingStrategy golden_cross_data =
     Inr (trade_signal ''BUY'' (7 / 10) (Plain ''Golden cross detected'') 2 (196 / 100)
            (Some (208 / 100)))"
    using trend_following_rise [of 1 2 "(*)"]
    by (simp add: generate_signal_def golden_cross_data_def)
  have sell: "generate_signal (*) TrendFollowingStrategy death_cross_data =
     Inr (trade_signal ''SELL'' (7 / 10) (Plain ''Death cross detected'') 1 (102 / 100)
            (Some (96 / 100)))"
    using trend_following_fall [of 1 2 "(*)"]
    by (simp add: generate_signal_def death_cross_data_def)
  have tiny: "generate_signal subnormal_product TrendFollowingStrategy subnormal_cross_data =
     Inr (trade_signal ''SELL'' (7 / 10) (Plain ''Death cross detected'') smallest_double
            smallest_double (Some smallest_double))"
    by (rule trend_following_subnormal)
  from signals_stop_on_losing_side [OF monotone_exact_product pos(1) fl(1) buy]
    signals_stop_on_losing_side [OF monotone_exact_product pos(2) fl(2) sell]
    signals_stop_on_losing_side [OF monotone_subnormal_product pos(3) fl(3) tiny]
    monotone_exact_product monotone_subnormal_product pos fl buy sell tiny
  show ?thesis by (simp add: trade_signal_def subnormal_product_collapses)
qed

text \<open>
  The claim with the strict inequalities fails on doubles: on thirty closes of 1.0
  followed by the close 5e-324, all strictly positive, \<^verbatim>\<open>TrendFollowingStrategy\<close> emits a
  SELL whose stop loss is its entry price, because 5e-324 * 1.02 rounds to 5e-324.
\<close>

theorem subnormal_close_stop_is_entry:
  "positive_prices subnormal_cross_data \<and>
   generate_signal subnormal_product TrendFollowingStrategy subnormal_cross_data =
     Inr (trade_signal ''SELL'' (7 / 10) (Plain ''Death cross detected'') smallest_double
            smallest_double (Some smallest_double)) \<and>
   sg_entry_price (trade_signal ''SELL'' (7 / 10) (Plain ''Death cross detected'') smallest_double
            smallest_double (Some smallest_double)) = Some smallest_double \<and>
   sg_stop_loss (trade_signal ''SELL'' (7 / 10) (Plain ''Death cross detected'') smallest_double
            smallest_double (Some smallest_double)) = Some smallest_double \<and>
   \<not> smallest_double < smallest_double \<and> 0 < smallest_double"
proof -
  have "positive_prices subnormal_cross_data"
    unfolding subnormal_cross_data_def positive_flat_bars
    by (simp add: list_all_iff smallest_double_positive)
  moreover have "generate_signal subnormal_product TrendFollowingStrategy subnormal_cross_data =
     Inr (trade_signal ''SELL'' (7 / 10) (Plain ''Death cross detected'') smallest_double
            smallest_double (Some smallest_double))"
    by (rule trend_following_subnormal)
  ultimately show ?thesis by (simp add: trade_signal_def smallest_double_positive)
qed

text \<open>
  With the exact product of the reals the stop is never the entry: this is the claim
  as it reads when rounding is left out.
\<close>

lemma exact_product_stop_apart:
  assumes "positive_prices data" and "generate_signal (*) s data = Inr sg"
  shows "(sg_signal sg = Some ''BUY'' \<longrightarrow>
            (\<exists>entry stop. sg_entry_price sg = Some entry \<and> sg_stop_loss sg = Some stop \<and>
               stop < entry)) \<and>
         (sg_signal sg = Some ''SELL'' \<longrightarrow>
            (\<exists>entry stop. sg_entry_price sg = Some entry \<and> sg_stop_loss sg = Some stop \<and>
               entry < stop))"
proof -
  have "float_closes (*) data" by (simp add: float_closes_def representable_def list_all_iff)
  with assms have "stop_placed (*) s sg"
    by (intro generate_signal_placed monotone_exact_product)
  then show ?thesis
    by (auto simp: stop_placed_def hold_def trade_signal_def)
qed

section \<open>The relative strength index\<close>

lemma increasing_changes_positive:
  "sorted_wrt (<) xs \<Longrightarrow> \<forall>c\<in>set (price_changes xs). 0 < c"
  by (induction xs rule: price_changes.induct) auto

lemma sum_list_zeros: "\<forall>x\<in>set xs. x = (0::real) \<Longrightarrow> sum_list xs = 0"
  by (induction xs) auto

lemma increasing_no_losses:
  assumes "sorted_wrt (<) prices"
  shows "sum_list (slice_last period (losses_of prices)) = 0"
proof -
  from increasing_changes_positive [OF assms]
  have "\<forall>x\<in>set (losses_of prices). x = 0" by (auto simp: losses_of_def)
  with set_slice_last [of period "losses_of prices"]
  have "\<forall>x\<in>set (slice_last period (losses_of prices)). x = 0" by blast
  then show ?thesis by (rule sum_list_zeros)
qed

lemma simple_rsi_short: "length prices < period + 1 \<Longrightarrow> simple_rsi prices period = Inr 50"
  by (simp add: simple_rsi_def)

lemma simple_rsi_no_loss:
  assumes "0 < period" and "period + 1 \<le> length prices"
    and "sum_list (slice_last period (losses_of prices)) / real period = 0"
  shows "simple_rsi prices period = Inr 100"
proof -
  from assms(2) have enough: "\<not> length prices < period + 1" by simp
  from assms(2) have gains: "\<not> length (gains_of prices) < period"
    by (simp add: gains_of_def)
  from assms(1) have mean: "py_div x (real period) = Inr (x / real period)" for x
    by (simp add: py_div_def)
  show ?thesis
    unfolding simple_rsi_def Let_def mean bind_err_Inr assms(3)
    using enough gains by (simp only: if_False if_True simp_thms)
qed

lemma rolling_mean_short:
  assumes "length xs < w"
  shows "rolling_mean w xs = replicate (length xs) NaN"
proof -
  from assms have "rolling_mean w xs = map (\<lambda>i. NaN) [0..<length xs]"
    unfolding rolling_mean_def by (intro map_cong) auto
  then show ?thesis by (simp add: map_replicate_const)
qed

lemma rsi_short:
  assumes "length data < period"
  shows "rsi data period = replicate (length data) NaN"
proof -
  have g: "rolling_mean period (where_or_zero (\<lambda>d. fgt d (Fin 0)) (diff_series data))
      = replicate (length data) NaN"
    using assms by (simp add: rolling_mean_short where_or_zero_def)
  have l: "rolling_mean period (map uminus (where_or_zero (\<lambda>d. flt d (Fin 0)) (diff_series data)))
      = replicate (length data) NaN"
    using assms by (simp add: rolling_mean_short where_or_zero_def)
  show ?thesis
    unfolding rsi_def Let_def g l
    by (simp add: fsub_def)
qed

lemma length_where_or_zero [simp]: "length (where_or_zero keep delta) = length delta"
  by (simp add: where_or_zero_def)

lemma length_rsi_gain [simp]: "length (rsi_gain data period) = length data"
  by (simp add: rsi_gain_def)

lemma length_rsi_loss [simp]: "length (rsi_loss data period) = length data"
  by (simp add: rsi_loss_def)

lemma rsi_nth:
  assumes "i < length data"
  shows "rsi data period ! i =
     fsub (Fin 100) (fdiv (Fin 100) (fadd (Fin 1) (fdiv (rsi_gain data period ! i) (rsi_loss data period ! i))))"
  using assms by (simp add: rsi_def Let_def rsi_gain_def rsi_loss_def)

lemma rsi_no_loss:
  assumes "i < length data" and "rsi_gain data period ! i = Fin g" and "rsi_loss data period ! i = Fin 0"
  shows "rsi data period ! i = (if g = 0 then NaN else Fin 100)"
  using assms by (simp add: rsi_nth fsub_def)

lemma rsi_some_loss:
  assumes "i < length data" and "rsi_gain data period ! i = Fin g" and "rsi_loss data period ! i = Fin l"
    and "0 \<le> g" and "0 < l"
  shows "rsi data period ! i = Fin (100 - 100 / (1 + g / l))"
proof -
  from assms(4,5) have "0 \<le> g / l" by simp
  then have "1 + g / l \<noteq> 0" by linarith
  with assms show ?thesis by (simp add: rsi_nth fsub_def)
qed

lemma rsi_unfilled:
  assumes "i < length data" and "i + 1 < period"
  shows "rsi data period ! i = NaN"
  using assms by (simp add: rsi_nth rsi_gain_def rsi_loss_def rolling_mean_nth fsub_def)

lemma sum_list_pos_last:
  assumes "xs \<noteq> []" and "\<forall>x\<in>set xs. (0::real) \<le> x" and "0 < last xs"
  shows "0 < sum_list xs"
proof -
  from assms(1) have xs: "xs = butlast xs @ [last xs]" by simp
  have "\<forall>x\<in>set (butlast xs). 0 \<le> x" using assms(2) by (auto dest: in_set_butlastD)
  then have "0 \<le> sum_list (butlast xs)" by (simp add: sum_list_nonneg)
  moreover have "sum_list xs = sum_list (butlast xs) + last xs"
    by (subst xs) simp
  ultimately show ?thesis using assms(3) by linarith
qed

lemma increasing_gains:
  assumes "sorted_wrt (<) data" and "data \<noteq> []"
  shows "where_or_zero (\<lambda>d. fgt d (Fin 0)) (diff_series data) = 0 # price_changes data"
proof -
  have "map ((\<lambda>d. case d of Fin v \<Rightarrow> if fgt d (Fin 0) then v else 0 | _ \<Rightarrow> 0) \<circ> Fin)
      (price_changes data) = price_changes data"
    using increasing_changes_positive [OF assms(1)]
    by (intro map_idI) (simp add: fgt_def)
  with assms(2) show ?thesis by (simp add: where_or_zero_def diff_series_def)
qed

lemma increasing_losses:
  assumes "sorted_wrt (<) data"
  shows "map uminus (where_or_zero (\<lambda>d. flt d (Fin 0)) (diff_series data)) = replicate (length data) 0"
proof -
  have "\<forall>x\<in>set (where_or_zero (\<lambda>d. flt d (Fin 0)) (diff_series data)). x = 0"
    using increasing_changes_positive [OF assms]
    by (auto simp: where_or_zero_def diff_series_def split: if_splits)
  then have "\<forall>x\<in>set (map uminus (where_or_zero (\<lambda>d. flt d (Fin 0)) (diff_series data))). x = 0"
    by auto
  then show ?thesis
    by (metis length_map length_where_or_zero length_diff_series replicate_eqI)
qed

lemma rsi_loss_increasing:
  assumes "sorted_wrt (<) data" and "i < length data" and "0 < period" and "period \<le> i + 1"
  shows "rsi_loss data period ! i = Fin 0"
proof -
  have "rsi_loss data period ! i = rolling_mean period (replicate (length data) 0) ! i"
    by (simp only: rsi_loss_def increasing_losses [OF assms(1)])
  also have "\<dots> = Fin (sum_list (window period (replicate (length data) 0) i) / real period)"
    using assms(2-4) by (subst rolling_mean_nth) simp_all
  also have "window period (replicate (length data) 0) i = replicate (min period (length data - (i + 1 - period))) (0::real)"
    by (simp add: window_def)
  finally show ?thesis by (simp add: sum_list_replicate)
qed

lemma rsi_gain_increasing:
  assumes inc: "sorted_wrt (<) data" and two: "2 \<le> length data"
    and p: "0 < period" "period \<le> length data"
  shows "\<exists>g. rsi_gain data period ! (length data - 1) = Fin g \<and> g \<noteq> 0"
proof -
  let ?n = "length data"
  let ?g = "0 # price_changes data"
  from two have ne: "data \<noteq> []" by auto
  have len: "length ?g = ?n" using two by simp
  have pc: "price_changes data \<noteq> []"
  proof
    assume "price_changes data = []"
    then have "length (price_changes data) = 0" by simp
    with two show False by simp
  qed
  have pos: "\<forall>c\<in>set (price_changes data). 0 < c"
    by (rule increasing_changes_positive [OF inc])
  have w: "window period ?g (?n - 1) = drop (?n - period) ?g"
    unfolding window_def using p two len by (simp del: drop_Cons' add: take_all_iff)
  have k: "?n - period < length ?g" using p len by linarith
  then have nonempty: "drop (?n - period) ?g \<noteq> []" by simp
  from k have "last (drop (?n - period) ?g) = last ?g" by (rule last_drop)
  also have "\<dots> = last (price_changes data)" using pc by simp
  also have "0 < \<dots>" using pos pc last_in_set by blast
  finally have lastpos: "0 < last (drop (?n - period) ?g)" .
  have "\<forall>x\<in>set ?g. 0 \<le> x" using pos by (auto intro: less_imp_le)
  then have "\<forall>x\<in>set (drop (?n - period) ?g). 0 \<le> x" by (meson in_set_dropD)
  with nonempty lastpos have "0 < sum_list (drop (?n - period) ?g)"
    by (intro sum_list_pos_last)
  with p have g: "sum_list (window period ?g (?n - 1)) / real period \<noteq> 0"
    unfolding w by simp
  have "rsi_gain data period ! (?n - 1) = rolling_mean period ?g ! (?n - 1)"
    by (simp only: rsi_gain_def increasing_gains [OF inc ne])
  also have "\<dots> = Fin (sum_list (window period ?g (?n - 1)) / real period)"
    using p two len by (subst rolling_mean_nth) simp_all
  finally show ?thesis using g by blast
qed

lemma rsi_increasing:
  assumes inc: "sorted_wrt (<) data" and p: "0 < period" "period \<le> length data"
    and two: "2 \<le> length data"
  shows "iloc (rsi data period) (- 1) = Inr (Fin 100)"
proof -
  from two have i: "length data - 1 < length data" by simp
  from rsi_gain_increasing [OF inc two p] obtain g
    where gain: "rsi_gain data period ! (length data - 1) = Fin g" and g: "g \<noteq> 0" by blast
  have loss: "rsi_loss data period ! (length data - 1) = Fin 0"
    using inc i p two by (intro rsi_loss_increasing) simp_all
  from rsi_no_loss [OF i gain loss] g have "rsi data period ! (length data - 1) = Fin 100" by simp
  moreover have "rsi data period \<noteq> []"
  proof
    assume "rsi data period = []"
    then have "length (rsi data period) = 0" by simp
    with two show False by simp
  qed
  ultimately show ?thesis using iloc_last [of "rsi data period"] by simp
qed

lemma simple_rsi_no_average:
  "prices \<noteq> [] \<Longrightarrow> simple_rsi prices 0 = Inl ZeroDivisionError"
  by (cases prices) (simp_all add: simple_rsi_def py_div_def Let_def)

lemma simple_rsi_no_average_loss:
  assumes "period + 1 \<le> length prices"
    and "py_div (sum_list (slice_last period (losses_of prices))) (real period) = Inr 0"
  shows "simple_rsi prices period = Inr 100"
proof -
  from assms(2) have "0 < period" by (auto simp: py_div_def split: if_splits)
  moreover from assms(2) have "sum_list (slice_last period (losses_of prices)) / real period = 0"
    by (auto simp: py_div_def split: if_splits)
  ultimately show ?thesis using assms(1) by (intro simple_rsi_no_loss)
qed

text \<open>
  C7 (as amended). \<^verbatim>\<open>SimpleTechnicalIndicators.rsi\<close> returns 50 for every series with
  fewer than period + 1 points, and for every longer series it returns 100 whenever the
  average loss over the last period changes is 0, as it is for a strictly increasing
  series; no division by that zero is attempted. The average exists for a period of at
  least 1: with period 0 it is itself a division by zero, and the call raises.
  \<^verbatim>\<open>TechnicalIndicators.rsi\<close> yields a Series and does not raise. Its value is NaN, not
  50, where fewer than period points have been seen, so at the end of a series with
  fewer than period points. Where its average loss is 0, its value is 100 if the
  average gain is not 0, as at the end of a strictly increasing series of at least two
  and at least period points, and NaN if the average gain is 0 as well.
\<close>

theorem rsi_neutral_or_full:
  "(length prices < period + 1 \<longrightarrow> simple_rsi prices period = Inr 50) \<and>
   (period + 1 \<le> length prices \<and>
    py_div (sum_list (slice_last period (losses_of prices))) (real period) = Inr 0 \<longrightarrow>
      simple_rsi prices period = Inr 100) \<and>
   (period + 1 \<le> length prices \<and> sorted_wrt (<) prices \<longrightarrow>
      simple_rsi prices period = (if period = 0 then Inl ZeroDivisionError else Inr 100)) \<and>
   (data \<noteq> [] \<and> length data < period \<longrightarrow> iloc (rsi data period) (- 1) = Inr NaN) \<and>
   (i < length data \<and> i + 1 < period \<longrightarrow> rsi data period ! i = NaN) \<and>
   (i < length data \<and> rsi_gain data period ! i = Fin g \<and> rsi_loss data period ! i = Fin 0 \<longrightarrow>
      rsi data period ! i = (if g = 0 then NaN else Fin 100)) \<and>
   (sorted_wrt (<) data \<and> 0 < period \<and> period \<le> length data \<and> 2 \<le> length data \<longrightarrow>
      iloc (rsi data period) (- 1) = Inr (Fin 100))"
proof -
  have short: "length prices < period + 1 \<longrightarrow> simple_rsi prices period = Inr 50"
    by (simp add: simple_rsi_short)
  have no_loss: "period + 1 \<le> length prices \<and>
    py_div (sum_list (slice_last period (losses_of prices))) (real period) = Inr 0 \<longrightarrow>
      simple_rsi prices period = Inr 100"
    using simple_rsi_no_average_loss [of period prices] by blast
  have rising: "period + 1 \<le> length prices \<and> sorted_wrt (<) prices \<longrightarrow>
      simple_rsi prices period = (if period = 0 then Inl ZeroDivisionError else Inr 100)"
  proof (intro impI, cases "period = 0")
    case True
    assume "period + 1 \<le> length prices \<and> sorted_wrt (<) prices"
    with True have "prices \<noteq> []" by auto
    with True show "simple_rsi prices period =
        (if period = 0 then Inl ZeroDivisionError else Inr 100)"
      by (simp add: simple_rsi_no_average)
  next
    case False
    assume h: "period + 1 \<le> length prices \<and> sorted_wrt (<) prices"
    then have "sum_list (slice_last period (losses_of prices)) / real period = 0"
      by (simp add: increasing_no_losses)
    with h False have "simple_rsi prices period = Inr 100"
      by (intro simple_rsi_no_loss) simp_all
    with False show "simple_rsi prices period =
        (if period = 0 then Inl ZeroDivisionError else Inr 100)"
      by simp
  qed
  have pandas: "data \<noteq> [] \<and> length data < period \<longrightarrow> iloc (rsi data period) (- 1) = Inr NaN"
  proof
    assume h: "data \<noteq> [] \<and> length data < period"
    then have "rsi data period \<noteq> []" by (simp add: rsi_short)
    then have "iloc (rsi data period) (- 1) = Inr (rsi data period ! (length (rsi data period) - 1))"
      by (rule iloc_last)
    with h show "iloc (rsi data period) (- 1) = Inr NaN" by (simp add: rsi_short)
  qed
  have unfilled: "i < length data \<and> i + 1 < period \<longrightarrow> rsi data period ! i = NaN"
    using rsi_unfilled [of i data period] by blast
  have full: "i < length data \<and> rsi_gain data period ! i = Fin g \<and>
      rsi_loss data period ! i = Fin 0 \<longrightarrow>
        rsi data period ! i = (if g = 0 then NaN else Fin 100)"
    using rsi_no_loss [of i data period g] by blast
  have increasing: "sorted_wrt (<) data \<and> 0 < period \<and> period \<le> length data \<and>
      2 \<le> length data \<longrightarrow> iloc (rsi data period) (- 1) = Inr (Fin 100)"
    using rsi_increasing [of data period] by blast
  from short no_loss rising pandas unfilled full increasing show ?thesis by (intro conjI)
qed

theorem rsi_neutral_or_full_witness:
  "simple_rsi [1, 2, 3] 14 = Inr 50 \<and>
   simple_rsi [5, 5, 6, 6, 7] 3 = Inr 100 \<and>
   simple_rsi [1, 2, 3, 4] 3 = Inr 100 \<and>
   simple_rsi [5] 0 = Inl ZeroDivisionError \<and>
   iloc (rsi [1, 2, 3] 14) (- 1) = Inr NaN \<and>
   rsi [1, 2, 3] 14 ! 0 = NaN \<and>
   rsi [1, 2, 3, 4] 3 ! 3 = Fin 100 \<and>
   rsi [1, 1, 1] 2 ! 2 = NaN \<and>
   iloc (rsi [1, 2, 3, 4] 3) (- 1) = Inr (Fin 100)"
proof -
  have average: "py_div (sum_list (slice_last 3 (losses_of [5, 5, 6, 6, 7]))) (real 3) = Inr 0"
    by code_simp
  have rising: "rsi_gain [1, 2, 3, 4] 3 ! 3 = Fin 1" "rsi_loss [1, 2, 3, 4] 3 ! 3 = Fin 0"
    by code_simp+
  have flat: "rsi_gain [1, 1, 1] 2 ! 2 = Fin 0" "rsi_loss [1, 1, 1] 2 ! 2 = Fin 0"
    by code_simp+
  from rsi_neutral_or_full [of "[1, 2, 3]" 14 "[1, 2, 3]" 0 0]
    rsi_neutral_or_full [of "[5, 5, 6, 6, 7]" 3 "[1, 2, 3, 4]" 3 1]
    rsi_neutral_or_full [of "[1, 2, 3, 4]" 3 "[1, 2, 3, 4]" 3 1]
    rsi_neutral_or_full [of "[5]" 0 "[1, 2, 3]" 0 0]
    rsi_neutral_or_full [of "[5]" 2 "[1, 1, 1]" 2 0]
    average rising flat
  show ?thesis by simp
qed

text \<open>
  The pandas \<^verbatim>\<open>rsi\<close> on three points with period 14 is NaN throughout, not 50; and on a
  flat series, where the average loss and the average gain are both 0, it ends in NaN,
  not in 100. The list \<^verbatim>\<open>rsi\<close> with period 0 raises on a series of one point.
\<close>

theorem pandas_rsi_is_not_neutral:
  "rsi [1, 2, 3] 14 = [NaN, NaN, NaN] \<and> iloc (rsi [1, 2, 3] 14) (- 1) \<noteq> Inr (Fin 50) \<and>
   rsi_loss (replicate 15 1) 14 ! 14 = Fin 0 \<and>
   iloc (rsi (replicate 15 1) 14) (- 1) = Inr NaN \<and>
   simple_rsi [5] 0 = Inl ZeroDivisionError"
  by code_simp

section \<open>Reachable robots\<close>

text \<open>
  Every call keeps a robot well-formed, so every robot reached from a fresh one is.
\<close>

lemma robot_inv_monitor:
  assumes "robot_inv r" shows "robot_inv (snd (monitor_trades feed clock r))"
proof -
  from assms have d: "distinct (active_trades r)" by (simp add: robot_inv_def)
  have "monitor_loop feed clock 0 (active_trades r) r =
      (fst (monitor_loop feed clock 0 (active_trades r) r),
       snd (monitor_loop feed clock 0 (active_trades r) r))"
    by simp
  from monitor_loop_spec [OF assms d subset_refl this] show ?thesis
    by (simp add: monitor_trades_def)
qed

lemma robot_inv_apply_op:
  assumes inv: "robot_inv r" shows "robot_inv (apply_op r op)"
proof (cases op)
  case (ExecuteTrade now sg)
  have "execute_trade now sg r = (fst (execute_trade now sg r), snd (execute_trade now sg r))"
    by simp
  with inv have "robot_inv (snd (execute_trade now sg r))" by (rule robot_inv_execute)
  with ExecuteTrade show ?thesis by simp
next
  case (CloseTrade now a price why)
  have "close_trade now r a price why =
      (fst (close_trade now r a price why), snd (close_trade now r a price why))"
    by simp
  with inv have "robot_inv (snd (close_trade now r a price why))" by (rule robot_inv_close)
  with CloseTrade show ?thesis by simp
next
  case (MonitorTrades feed clock)
  with inv show ?thesis by (simp add: robot_inv_monitor)
next
  case (ManualTrade now d)
  have "execute_trade now (manual_signal d) r =
      (fst (execute_trade now (manual_signal d) r), snd (execute_trade now (manual_signal d) r))"
    by simp
  with inv have "robot_inv (snd (execute_trade now (manual_signal d) r))"
    by (rule robot_inv_execute)
  with inv ManualTrade show ?thesis
    by (auto simp: manual_trade_def split: prod.splits outcome.splits bool.splits)
next
  case (CloseTradeManual now price_of wanted)
  show ?thesis
  proof (cases "find (\<lambda>a. trade_id (heap r a) = wanted) (active_trades r)")
    case None
    with inv CloseTradeManual show ?thesis by (simp add: close_trade_manual_def)
  next
    case (Some a)
    let ?c = "close_trade now r a (price_of (symbol (heap r a))) ''MANUAL_CLOSE''"
    have "?c = (fst ?c, snd ?c)" by simp
    with inv have "robot_inv (snd ?c)" by (rule robot_inv_close)
    with inv Some CloseTradeManual show ?thesis
      by (auto simp: close_trade_manual_def Let_def split: prod.splits outcome.splits)
  qed
qed

lemma robot_inv_run: "robot_inv r \<Longrightarrow> robot_inv (run ops r)"
  unfolding run_def by (induction ops arbitrary: r) (simp_all add: robot_inv_apply_op)

lemma reachable_robot_inv: "robot_inv (run ops (new_robot eng))"
  by (simp add: robot_inv_run robot_inv_new)

text \<open>
  The take profit of a mean-reversion signal is the middle Bollinger band, which is
  the mean of the last 20 closes, a finite number, whenever the strategy gets past
  its length check.
\<close>

lemma mean_reversion_take_profit_present:
  assumes sg: "mean_reversion mul data = Inr sg" and act: "sg_signal sg \<noteq> Some ''HOLD''"
  shows "sg_take_profit sg =
     Some (sum_list (window 20 (map Close data) (length data - 1)) / 20)"
proof (cases "length data < max 14 20")
  case True
  with sg act show ?thesis by (auto simp: mean_reversion_def hold_def)
next
  case False
  let ?c = "map Close data"
  from False have ne: "fst (snd (bollinger_bands ?c 20 2)) \<noteq> []" "?c \<noteq> []"
    "rsi ?c 14 \<noteq> []" "fst (bollinger_bands ?c 20 2) \<noteq> []" "snd (snd (bollinger_bands ?c 20 2)) \<noteq> []"
    by (auto simp: length_0_conv [symmetric] simp del: length_0_conv)
  have mid: "fst (snd (bollinger_bands ?c 20 2)) = rolling_mean 20 ?c"
    by (simp add: bollinger_bands_def Let_def sma_def)
  let ?m = "sum_list (window 20 ?c (length ?c - 1)) / real 20"
  from False have nth: "rolling_mean 20 ?c ! (length (rolling_mean 20 ?c) - 1) = Fin ?m"
    unfolding length_rolling_mean by (subst rolling_mean_nth) auto
  from ne(1) have "rolling_mean 20 ?c \<noteq> []" unfolding mid .
  then have "iloc (rolling_mean 20 ?c) (- 1) =
      Inr (rolling_mean 20 ?c ! (length (rolling_mean 20 ?c) - 1))"
    by (rule iloc_last)
  then have m: "iloc (fst (snd (bollinger_bands ?c 20 2))) (- 1) = Inr (Fin ?m)"
    by (simp only: mid nth)
  from sg act False ne m show ?thesis
    by (auto simp: mean_reversion_def Let_def iloc_last hold_def trade_signal_def as_price_def
        simp del: not_None_eq split: if_splits)
qed

end
